theory Spec2Isabelle
  imports Main
begin

section \<open>Data model\<close>

text \<open>
  Python exceptions that the modelled code raises, catches or lets through.
  \<open>CancelledError\<close> and \<open>KeyboardInterrupt\<close> derive from \<open>BaseException\<close> only, so an
  \<open>except Exception\<close> clause does not catch them; every other constructor is a subclass of
  \<open>Exception\<close>. \<open>SMTPResponseException\<close> carries its \<open>smtp_code\<close>.
\<close>

datatype exc =
    IndexError
  | KeyError
  | TypeError
  | ConnectionError
  | IMAPError
  | TelegramError
  | AgentError
  | SMTPServerDisconnected
  | SMTPResponseException nat
  | CancelledError
  | KeyboardInterrupt

fun is_Exception :: "exc \<Rightarrow> bool" where
  "is_Exception CancelledError = False"
| "is_Exception KeyboardInterrupt = False"
| "is_Exception _ = True"

text \<open>
  A Python \<open>datetime\<close> is either naive (no time zone; \<open>datetime.now()\<close> returns such a value)
  or aware (\<open>parsedate_to_datetime\<close> returns one for a Date header that carries a zone other
  than \<open>-0000\<close>). The integer is the instant on the value's own time line.
\<close>

datatype pydatetime = Naive int | Aware int

text \<open>Class \<open>Email\<close> of \<open>emailer.py\<close>; the field \<open>id\<close> is named \<open>email_id\<close> here.\<close>

record email =
  email_id :: string
  to_address :: string
  from_address :: string
  subject :: string
  body :: string
  date :: pydatetime
  message_id :: string
  references :: string

text \<open>Calls to the outside world that the modelled functions make, in the order made.\<close>

datatype event =
    SmtpNoop
  | SmtpConnect
  | SmtpSend email
  | SmtpQuit
  | Sleep nat
  | MarkAsRead string
  | SaveDraft email

section \<open>Delivery with retry: \<open>Emailer.process\<close>\<close>

text \<open>
  What the SMTP server does during one iteration of the retry loop: whether \<open>noop()\<close>
  returns, the outcome of \<open>_connect_to_smtp()\<close> when the liveness probe fails, the outcome of
  \<open>send_message\<close>, and the outcome of \<open>_connect_to_smtp()\<close> when an \<open>except\<close> clause
  reconnects. \<open>None\<close> is a normal return, \<open>Some x\<close> the exception raised.
\<close>

record attempt_env =
  noop_ok :: bool
  connect_in_try :: "exc option"
  send_message :: "exc option"
  connect_in_handler :: "exc option"

text \<open>The local variables of the retry loop, and the trace of its calls.\<close>

record retry_state =
  retry_delay :: nat
  success :: bool
  attempt :: nat
  trace :: "event list"

datatype 'a flow = Continue 'a | Break 'a | Raise exc 'a

definition max_retries :: nat where
  "max_retries = 3"

text \<open>
  The body of the \<open>try\<close> block: probe, reconnect if the probe fails, send. \<open>try_raises\<close>
  is the exception that leaves the block, \<open>try_calls\<close> the calls made.
\<close>

definition try_raises :: "attempt_env \<Rightarrow> exc option" where
  "try_raises e =
     (if noop_ok e then send_message e
      else (case connect_in_try e of Some x \<Rightarrow> Some x | None \<Rightarrow> send_message e))"

definition try_calls :: "attempt_env \<Rightarrow> email \<Rightarrow> event list" where
  "try_calls e message =
     (if noop_ok e then [SmtpNoop, SmtpSend message]
      else (case connect_in_try e of
              Some x \<Rightarrow> [SmtpNoop, SmtpConnect]
            | None \<Rightarrow> [SmtpNoop, SmtpConnect, SmtpSend message]))"

text \<open>\<open>smtp_conn = self._connect_to_smtp()\<close> inside an \<open>except\<close> clause: its exception escapes.\<close>

definition reconnect :: "attempt_env \<Rightarrow> retry_state \<Rightarrow> retry_state flow" where
  "reconnect e st =
     (let st' = st\<lparr>trace := trace st @ [SmtpConnect]\<rparr>
      in case connect_in_handler e of None \<Rightarrow> Continue st' | Some x \<Rightarrow> Raise x st')"

text \<open>\<open>await asyncio.sleep(retry_delay); retry_delay *= 2\<close>\<close>

definition backoff :: "retry_state \<Rightarrow> retry_state" where
  "backoff st = st\<lparr>trace := trace st @ [Sleep (retry_delay st)], retry_delay := retry_delay st * 2\<rparr>"

text \<open>The \<open>except\<close> clauses, in the order of the source.\<close>

fun except_clause :: "attempt_env \<Rightarrow> exc \<Rightarrow> retry_state \<Rightarrow> retry_state flow" where
  "except_clause e SMTPServerDisconnected st = reconnect e st"
| "except_clause e (SMTPResponseException code) st =
     (if code = 451 then reconnect e (backoff st) else Continue (backoff st))"
| "except_clause e x st = (if is_Exception x then Continue (backoff st) else Raise x st)"

text \<open>One iteration of \<open>for attempt in range(1, max_retries + 1)\<close>.\<close>

definition attempt_step :: "attempt_env \<Rightarrow> email \<Rightarrow> nat \<Rightarrow> retry_state \<Rightarrow> retry_state flow" where
  "attempt_step e message n st =
     (let st1 = st\<lparr>attempt := n, trace := trace st @ try_calls e message\<rparr>
      in case try_raises e of
           None \<Rightarrow> Break (st1\<lparr>success := True\<rparr>)
         | Some x \<Rightarrow> except_clause e x st1)"

fun retry_loop :: "(nat \<Rightarrow> attempt_env) \<Rightarrow> email \<Rightarrow> nat list \<Rightarrow> retry_state \<Rightarrow> retry_state flow" where
  "retry_loop env message [] st = Continue st"
| "retry_loop env message (n # ns) st =
     (case attempt_step (env n) message n st of
        Continue st' \<Rightarrow> retry_loop env message ns st'
      | Break st' \<Rightarrow> Break st'
      | Raise x st' \<Rightarrow> Raise x st')"

text \<open>Lines 446 to 482: the initial values and the loop over the attempts 1, 2, 3.\<close>

definition retry_start :: retry_state where
  "retry_start = \<lparr>retry_delay = 2, success = False, attempt = 0, trace = []\<rparr>"

definition send_with_retry :: "(nat \<Rightarrow> attempt_env) \<Rightarrow> email \<Rightarrow> retry_state flow" where
  "send_with_retry env message = retry_loop env message [1 ..< max_retries + 1] retry_start"

text \<open>
  Lines 439 to 491 of the body of \<open>for email_thread in unread_emails\<close>, for a thread whose
  response is not \<open>None\<close>: copy the threading headers of the most recent message into the
  response, send with retry, and mark the most recent message read only when \<open>success\<close>
  is set. An exception that escapes the retry loop escapes the iteration too.
\<close>

datatype outcome = Sent | Failed | Raised exc

definition finish :: "bool \<Rightarrow> email \<Rightarrow> retry_state \<Rightarrow> outcome \<times> retry_state" where
  "finish mark_read most_recent st =
     (if \<not> success st then (Failed, st)
      else (Sent, if mark_read
                  then st\<lparr>trace := trace st @ [MarkAsRead (email_id most_recent)]\<rparr>
                  else st))"

definition deliver :: "(nat \<Rightarrow> attempt_env) \<Rightarrow> bool \<Rightarrow> email \<Rightarrow> email \<Rightarrow> outcome \<times> retry_state" where
  "deliver env mark_read most_recent response =
     (case send_with_retry env
             (response\<lparr>message_id := message_id most_recent,
                        references := references most_recent\<rparr>) of
        Raise x st \<Rightarrow> (Raised x, st)
      | Break st \<Rightarrow> finish mark_read most_recent st
      | Continue st \<Rightarrow> finish mark_read most_recent st)"

text \<open>The delays slept, the messages given to \<open>send_message\<close>, the messages marked read.\<close>

fun delays :: "event list \<Rightarrow> nat list" where
  "delays [] = []"
| "delays (Sleep d # es) = d # delays es"
| "delays (_ # es) = delays es"

fun sends :: "event list \<Rightarrow> email list" where
  "sends [] = []"
| "sends (SmtpSend m # es) = m # sends es"
| "sends (_ # es) = sends es"

fun marked_read :: "event list \<Rightarrow> string list" where
  "marked_read [] = []"
| "marked_read (MarkAsRead i # es) = i # marked_read es"
| "marked_read (_ # es) = marked_read es"

fun state_of :: "'a flow \<Rightarrow> 'a" where
  "state_of (Continue s) = s"
| "state_of (Break s) = s"
| "state_of (Raise x s) = s"

text \<open>
  An attempt fails and the loop goes on: the \<open>try\<close> block raises an \<open>Exception\<close>, and the
  \<open>except\<close> clause that handles it returns (the two clauses that reconnect do so only when
  \<open>_connect_to_smtp()\<close> returns).
\<close>

definition attempt_fails :: "attempt_env \<Rightarrow> bool" where
  "attempt_fails e =
     (case try_raises e of
        None \<Rightarrow> False
      | Some x \<Rightarrow> is_Exception x \<and>
          ((x = SMTPServerDisconnected \<or> x = SMTPResponseException 451)
             \<longrightarrow> connect_in_handler e = None))"

text \<open>The loop invariant of the backoff: the delays slept so far are 2, 4, ..., and
  \<open>retry_delay\<close> is the next one.\<close>

definition geometric :: "retry_state \<Rightarrow> bool" where
  "geometric st =
     (delays (trace st) = map (\<lambda>i. 2 * 2 ^ i) [0 ..< length (delays (trace st))]
      \<and> retry_delay st = 2 * 2 ^ length (delays (trace st)))"

section \<open>Thread reconstruction: \<open>Emailer._parse_email\<close>, \<open>_get_email_thread\<close>, \<open>_get_unread_emails\<close>\<close>

text \<open>
  A fetched message after \<open>email.message_from_bytes\<close>: the headers the code reads
  (\<open>None\<close> when the header is absent), the address parts that \<open>parseaddr\<close> returns, and the
  text that \<open>_get_body\<close> returns.
\<close>

record raw_message =
  subject_hdr :: "string option"
  from_addr :: string
  to_addr :: string
  date_hdr :: "string option"
  message_id_hdr :: "string option"
  references_hdr :: "string option"
  text_body :: string

text \<open>
  The IMAP server and the library calls, as the code sees them:
  \<^item> \<open>fetch_message i\<close>: the \<open>BODY.PEEK[]\<close> fetch of message \<open>i\<close>; \<open>None\<close> when the
    response holds no data or is not a pair;
  \<^item> \<open>parsedate_to_datetime s\<close>: \<open>None\<close> when the library raises;
  \<^item> \<open>now i\<close>: what \<open>datetime.now()\<close> reads while message \<open>i\<close> is parsed;
  \<^item> \<open>gm_thrid i\<close>: the number matched after \<open>X-GM-THRID\<close>, if any;
  \<^item> \<open>search_thrid t\<close>: the ids of the thread group \<open>t\<close> (empty when the search returns
    nothing);
  \<^item> \<open>references_line i\<close>: \<open>None\<close> when the header fetch returns no data, otherwise the
    identifiers between angle brackets;
  \<^item> \<open>search_message_id r\<close>: the ids of the messages whose Message-ID is \<open>r\<close>;
  \<^item> \<open>search_unseen\<close>: the ids of the unseen messages addressed to the support address.
\<close>

record imap =
  fetch_message :: "string \<Rightarrow> raw_message option"
  parsedate_to_datetime :: "string \<Rightarrow> pydatetime option"
  now :: "string \<Rightarrow> int"
  gm_thrid :: "string \<Rightarrow> string option"
  search_thrid :: "string \<Rightarrow> string list"
  references_line :: "string \<Rightarrow> string list option"
  search_message_id :: "string \<Rightarrow> string list"
  search_unseen :: "string list"

definition or_empty :: "string option \<Rightarrow> string" where
  "or_empty h = (case h of None \<Rightarrow> [] | Some v \<Rightarrow> v)"

text \<open>
  Lines 291 to 297: the date starts as \<open>datetime.now()\<close>, a naive value, and is replaced only
  when the Date header is non-empty and parses.
\<close>

definition parse_date :: "imap \<Rightarrow> string \<Rightarrow> raw_message \<Rightarrow> pydatetime" where
  "parse_date srv i raw =
     (let date_str = or_empty (date_hdr raw)
      in if date_str = [] then Naive (now srv i)
         else (case parsedate_to_datetime srv date_str of
                 None \<Rightarrow> Naive (now srv i)
               | Some d \<Rightarrow> d))"

definition parse_email :: "imap \<Rightarrow> string \<Rightarrow> email option" where
  "parse_email srv i =
     (case fetch_message srv i of
        None \<Rightarrow> None
      | Some raw \<Rightarrow>
          Some \<lparr>email_id = i, to_address = to_addr raw, from_address = from_addr raw,
                subject = or_empty (subject_hdr raw), body = text_body raw,
                date = parse_date srv i raw,
                message_id = or_empty (message_id_hdr raw),
                references = or_empty (references_hdr raw)\<rparr>)"

fun is_aware :: "pydatetime \<Rightarrow> bool" where
  "is_aware (Aware t) = True"
| "is_aware (Naive t) = False"

fun instant :: "pydatetime \<Rightarrow> int" where
  "instant (Aware t) = t"
| "instant (Naive t) = t"

text \<open>
  \<open>thread.sort(key=lambda e: e.date)\<close>. Python's sort is stable and orders the keys with
  \<open><\<close>; between a naive and an aware \<open>datetime\<close> that comparison raises \<open>TypeError\<close>. A
  sort that never compares a naive key with an aware one cannot place them, so the call
  raises exactly when the thread holds keys of both kinds.
\<close>

definition sort_by_date :: "email list \<Rightarrow> exc + email list" where
  "sort_by_date thread =
     (if list_all (\<lambda>e. is_aware (date e)) thread \<or> list_all (\<lambda>e. \<not> is_aware (date e)) thread
      then Inr (sort_key (\<lambda>e. instant (date e)) thread)
      else Inl TypeError)"

text \<open>Lines 356 to 359: one id found for a reference.\<close>

definition add_reference :: "imap \<Rightarrow> string \<Rightarrow> email list \<Rightarrow> email list" where
  "add_reference srv ref_id thread =
     (case parse_email srv ref_id of
        None \<Rightarrow> thread
      | Some ref_email \<Rightarrow>
          if email_id ref_email \<in> set (map email_id thread) then thread
          else thread @ [ref_email])"

definition follow_references :: "imap \<Rightarrow> string list \<Rightarrow> email list \<Rightarrow> email list" where
  "follow_references srv refs thread =
     fold (\<lambda>ref th. fold (add_reference srv) (search_message_id srv ref) th) refs thread"

definition get_email_thread :: "imap \<Rightarrow> string \<Rightarrow> exc + email list" where
  "get_email_thread srv email_id_bytes =
     (case parse_email srv email_id_bytes of
        None \<Rightarrow> Inr []
      | Some email \<Rightarrow>
          (case (case gm_thrid srv (email_id email) of
                   None \<Rightarrow> []
                 | Some thread_id \<Rightarrow> search_thrid srv thread_id) of
             mid # mids \<Rightarrow> sort_by_date (List.map_filter (parse_email srv) (mid # mids))
           | [] \<Rightarrow>
               (case references_line srv (email_id email) of
                  Some refs \<Rightarrow> sort_by_date (follow_references srv refs [email])
                | None \<Rightarrow> Inr [email])))"

fun get_threads :: "imap \<Rightarrow> string list \<Rightarrow> exc + email list list" where
  "get_threads srv [] = Inr []"
| "get_threads srv (i # ids) =
     (case get_email_thread srv i of
        Inl x \<Rightarrow> Inl x
      | Inr thread \<Rightarrow>
          (case get_threads srv ids of
             Inl x \<Rightarrow> Inl x
           | Inr emails \<Rightarrow> Inr (thread # emails)))"

definition get_unread_emails :: "imap \<Rightarrow> exc + email list list" where
  "get_unread_emails srv = get_threads srv (search_unseen srv)"

section \<open>Approval rendezvous: \<open>TelegramBot\<close>\<close>

text \<open>
  An entry of the dictionary \<open>pending_actions\<close>; \<open>event\<close> tells whether the
  \<open>asyncio.Event\<close> is set.
\<close>

record pending =
  email_thread :: "email list"
  draft_email :: email
  event :: bool
  result :: "email option"

text \<open>The \<open>action\<close> of a callback's data: \<open>send\<close>, \<open>draft\<close>, \<open>test\<close>, or anything else.\<close>

datatype action = ActSend | ActDraft | ActTest | ActOther

text \<open>
  What the bot sends to the chat: the notification with its two buttons (for a key, as HTML
  or as plain text), the texts that a callback puts in place of a message, and the removal of
  the buttons of message \<open>n\<close>.
\<close>

datatype chat =
    Notify string bool
  | WillBeSent
  | SavedAsDraft
  | Expired
  | TestClicked
  | ErrorText
  | RemoveButtons nat

text \<open>
  The coroutine \<open>_button_callback\<close> between its suspension points. The polling task handles
  one update at a time (\<open>await self.process_update(update)\<close> in the loop of
  \<open>_start_polling\<close>), so at most one callback is in progress: none; suspended in
  \<open>query.answer()\<close> (line 136, before the \<open>try\<close> and before the lookup); suspended in the
  \<open>edit_message_text\<close> of a test click, of a key without entry, or of a decision (lines 191
  and 204, between the lookup and the write); or suspended in the \<open>edit_message_text\<close> of
  the \<open>except\<close> clause. The arguments are its local variables \<open>action\<close>, \<open>email_id\<close> and
  \<open>draft_email\<close>.
\<close>

datatype handler =
    NoCallback
  | AwaitAnswer action string
  | AwaitEditTest
  | AwaitEditExpired
  | AwaitEditDecision action string email
  | AwaitEditError

text \<open>
  The coroutine \<open>notify_and_wait_for_action\<close> between its suspension points: not called
  yet, suspended in the first \<open>send_message\<close> (HTML), in the second (plain text), in
  \<open>wait_for(event.wait(), 3600)\<close>, in \<open>edit_message_reply_markup\<close> after the timeout, or
  finished by \<open>return\<close> or by an exception. The arguments are its local variables
  \<open>unique_id\<close>, \<open>email_thread\<close>, \<open>draft_email\<close> and \<open>sent_message.message_id\<close>.
\<close>

datatype waiter =
    Idle
  | AwaitSendHtml string "email list" email
  | AwaitSendPlain string "email list" email
  | AwaitEvent string nat
  | AwaitWithdraw string nat
  | Returned "email option"
  | Threw exc

record bot =
  pending_actions :: "string \<rightharpoonup> pending"
  chat_log :: "chat list"
  waiter :: waiter
  handler :: handler

text \<open>
  The call, up to the first suspension (lines 235 to 285). \<open>timestamp\<close> is
  \<open>str(datetime.now().timestamp())\<close>, used when the id of the most recent message is empty.
\<close>

definition unique_id :: "string \<Rightarrow> email list \<Rightarrow> string" where
  "unique_id timestamp thread =
     (if email_id (last thread) \<noteq> [] then email_id (last thread) else timestamp)"

definition notify_and_wait_for_action :: "string \<Rightarrow> email list \<Rightarrow> email \<Rightarrow> bot \<Rightarrow> bot" where
  "notify_and_wait_for_action timestamp thread draft b =
     (if thread = [] then b\<lparr>waiter := Returned None\<rparr>
      else b\<lparr>chat_log := chat_log b @ [Notify (unique_id timestamp thread) True],
             waiter := AwaitSendHtml (unique_id timestamp thread) thread draft\<rparr>)"

text \<open>Lines 311 to 326: create the event, store the entry, start to wait.\<close>

definition register :: "string \<Rightarrow> email list \<Rightarrow> email \<Rightarrow> nat \<Rightarrow> bot \<Rightarrow> bot" where
  "register key thread draft mid b =
     b\<lparr>pending_actions := (pending_actions b)
          (key \<mapsto> \<lparr>email_thread = thread, draft_email = draft, event = False, result = None\<rparr>),
       waiter := AwaitEvent key mid\<rparr>"

text \<open>What a decision callback writes into \<open>result\<close>, for the draft it read from the entry.\<close>

fun decision :: "action \<Rightarrow> email \<Rightarrow> email option" where
  "decision ActSend d = Some d"
| "decision a d = None"

text \<open>
  \<open>_button_callback\<close> from the return of \<open>query.answer()\<close> to its next suspension (lines
  139 to 191, 204 or 215): a test click is answered; otherwise the key is looked up, and
  either the expiry text, or the confirmation of the decision, is sent. The text is logged
  when \<open>edit_message_text\<close> is called. An empty thread in the entry raises \<open>IndexError\<close> at
  line 163, which the \<open>except\<close> clause answers with the error text.
\<close>

definition button_callback_lookup :: "action \<Rightarrow> string \<Rightarrow> bot \<Rightarrow> bot" where
  "button_callback_lookup act key b =
     (if act = ActTest then b\<lparr>chat_log := chat_log b @ [TestClicked], handler := AwaitEditTest\<rparr>
      else (case pending_actions b key of
              None \<Rightarrow> b\<lparr>chat_log := chat_log b @ [Expired], handler := AwaitEditExpired\<rparr>
            | Some p \<Rightarrow>
                if email_thread p = []
                then b\<lparr>chat_log := chat_log b @ [ErrorText], handler := AwaitEditError\<rparr>
                else if act = ActSend
                then b\<lparr>chat_log := chat_log b @ [WillBeSent],
                       handler := AwaitEditDecision ActSend key (draft_email p)\<rparr>
                else if act = ActDraft
                then b\<lparr>chat_log := chat_log b @ [SavedAsDraft],
                       handler := AwaitEditDecision ActDraft key (draft_email p)\<rparr>
                else b\<lparr>handler := NoCallback\<rparr>))"

text \<open>
  \<open>_button_callback\<close> after the \<open>edit_message_text\<close> of a decision has returned (lines 197
  and 198, or 210 and 211): the entry is looked up again by its key; when it is gone the
  assignment raises \<open>KeyError\<close>, which the \<open>except\<close> clause answers with the error text.
\<close>

definition button_callback_write :: "action \<Rightarrow> string \<Rightarrow> email \<Rightarrow> bot \<Rightarrow> bot" where
  "button_callback_write act key draft b =
     (case pending_actions b key of
        None \<Rightarrow> b\<lparr>chat_log := chat_log b @ [ErrorText], handler := AwaitEditError\<rparr>
      | Some p \<Rightarrow>
          b\<lparr>pending_actions := (pending_actions b)
                 (key \<mapsto> p\<lparr>result := decision act draft, event := True\<rparr>),
            handler := NoCallback\<rparr>)"

text \<open>
  An \<open>edit_message_text\<close> inside the \<open>try\<close> block raises: \<open>except Exception\<close> (line 220)
  sends the error text, anything else leaves the coroutine.
\<close>

definition edit_failed :: "exc \<Rightarrow> bot \<Rightarrow> bot" where
  "edit_failed x b =
     (if is_Exception x then b\<lparr>chat_log := chat_log b @ [ErrorText], handler := AwaitEditError\<rparr>
      else b\<lparr>handler := NoCallback\<rparr>)"

text \<open>
  What can happen next: the pending \<open>send_message\<close> returns a message id or raises; the
  polling task starts to handle a callback; its pending \<open>query.answer()\<close> returns or raises;
  its pending \<open>edit_message_text\<close> returns or raises; the wait ends because the event is set;
  the wait times out; the pending \<open>edit_message_reply_markup\<close> returns or raises.
\<close>

datatype stimulus =
    SendReturns "exc + nat"
  | Callback action string
  | AnswerReturns "exc option"
  | EditReturns "exc option"
  | EventWakes
  | TimeoutFires
  | WithdrawReturns "exc option"

text \<open>
  The coroutine that waits for the event is ready to run as soon as \<open>event.set()\<close> has been
  called, and it resumes without any I/O. Everything the polling task awaits inside
  \<open>_button_callback\<close> is a request to the Telegram server that it starts after that call,
  and asyncio runs a coroutine that is ready before it delivers a completion that arrived
  later. So while the waiting coroutine is ready, no request of the callback completes.
\<close>

definition ready :: "bot \<Rightarrow> bool" where
  "ready b =
     (case waiter b of
        AwaitEvent k mid \<Rightarrow> (case pending_actions b k of Some p \<Rightarrow> event p | None \<Rightarrow> False)
      | _ \<Rightarrow> False)"

text \<open>
  One step of the bot. A stimulus that the current suspension point does not wait for
  changes nothing; a callback is started only when none is in progress. An exception of
  \<open>query.answer()\<close>, or of the \<open>edit_message_text\<close> in the \<open>except\<close> clause, leaves
  \<open>_button_callback\<close> and is logged by \<open>process_update\<close>.
  \<open>del self.pending_actions[unique_id]\<close> raises \<open>KeyError\<close> when the entry is gone.
\<close>

fun step :: "stimulus \<Rightarrow> bot \<Rightarrow> bot" where
  "step (Callback act key) b =
     (if handler b = NoCallback then b\<lparr>handler := AwaitAnswer act key\<rparr> else b)"
| "step (AnswerReturns r) b =
     (if ready b then b
      else (case handler b of
              AwaitAnswer act key \<Rightarrow>
                (case r of
                   Some x \<Rightarrow> b\<lparr>handler := NoCallback\<rparr>
                 | None \<Rightarrow> button_callback_lookup act key b)
            | _ \<Rightarrow> b))"
| "step (EditReturns r) b =
     (if ready b then b
      else (case handler b of
              AwaitEditTest \<Rightarrow>
                (case r of None \<Rightarrow> b\<lparr>handler := NoCallback\<rparr> | Some x \<Rightarrow> edit_failed x b)
            | AwaitEditExpired \<Rightarrow>
                (case r of None \<Rightarrow> b\<lparr>handler := NoCallback\<rparr> | Some x \<Rightarrow> edit_failed x b)
            | AwaitEditDecision act key draft \<Rightarrow>
                (case r of None \<Rightarrow> button_callback_write act key draft b | Some x \<Rightarrow> edit_failed x b)
            | AwaitEditError \<Rightarrow> b\<lparr>handler := NoCallback\<rparr>
            | _ \<Rightarrow> b))"
| "step (SendReturns r) b =
     (case waiter b of
        AwaitSendHtml k thread draft \<Rightarrow>
          (case r of
             Inr mid \<Rightarrow> register k thread draft mid b
           | Inl x \<Rightarrow>
               if is_Exception x
               then b\<lparr>chat_log := chat_log b @ [Notify k False], waiter := AwaitSendPlain k thread draft\<rparr>
               else b\<lparr>waiter := Threw x\<rparr>)
      | AwaitSendPlain k thread draft \<Rightarrow>
          (case r of
             Inr mid \<Rightarrow> register k thread draft mid b
           | Inl x \<Rightarrow> b\<lparr>waiter := Threw x\<rparr>)
      | _ \<Rightarrow> b)"
| "step EventWakes b =
     (case waiter b of
        AwaitEvent k mid \<Rightarrow>
          (case pending_actions b k of
             Some p \<Rightarrow>
               if event p
               then b\<lparr>pending_actions := (pending_actions b)(k := None), waiter := Returned (result p)\<rparr>
               else b
           | None \<Rightarrow> b)
      | _ \<Rightarrow> b)"
| "step TimeoutFires b =
     (case waiter b of
        AwaitEvent k mid \<Rightarrow>
          (case pending_actions b k of
             Some p \<Rightarrow>
               if event p then b
               else b\<lparr>chat_log := chat_log b @ [RemoveButtons mid], waiter := AwaitWithdraw k mid\<rparr>
           | None \<Rightarrow> b)
      | _ \<Rightarrow> b)"
| "step (WithdrawReturns r) b =
     (case waiter b of
        AwaitWithdraw k mid \<Rightarrow>
          (case r of
             Some x \<Rightarrow> b\<lparr>waiter := Threw x\<rparr>
           | None \<Rightarrow>
               (case pending_actions b k of
                  None \<Rightarrow> b\<lparr>waiter := Threw KeyError\<rparr>
                | Some p \<Rightarrow> b\<lparr>pending_actions := (pending_actions b)(k := None), waiter := Returned None\<rparr>))
      | _ \<Rightarrow> b)"

fun run :: "stimulus list \<Rightarrow> bot \<Rightarrow> bot" where
  "run [] b = b"
| "run (s # ss) b = run ss (step s b)"

text \<open>What the caller of the coroutine gets, once it has finished.\<close>

fun awaited :: "waiter \<Rightarrow> (exc + email option) option" where
  "awaited (Returned r) = Some (Inr r)"
| "awaited (Threw x) = Some (Inl x)"
| "awaited _ = None"

text \<open>
  What \<open>await telegram_bot.notify_and_wait_for_action(thread, draft)\<close> gives its caller
  when the stimuli \<open>ss\<close> follow the call. A coroutine still suspended when they end is
  cancelled at shutdown.
\<close>

definition await_approval ::
  "string \<Rightarrow> stimulus list \<Rightarrow> bot \<Rightarrow> email list \<Rightarrow> email \<Rightarrow> exc + email option" where
  "await_approval timestamp ss b thread draft =
     (case awaited (waiter (run ss (notify_and_wait_for_action timestamp thread draft b))) of
        Some r \<Rightarrow> r
      | None \<Rightarrow> Inl CancelledError)"





section \<open>Orchestration: \<open>main.py\<close>\<close>

text \<open>Python's \<open>needle in haystack\<close> on strings, and \<open>str.lower\<close> on ASCII letters.\<close>

fun contains :: "string \<Rightarrow> string \<Rightarrow> bool" where
  "contains [] needle = (needle = [])"
| "contains (c # cs) needle = (take (length needle) (c # cs) = needle \<or> contains cs needle)"

definition lower :: "string \<Rightarrow> string" where
  "lower s = map (\<lambda>c. if 65 \<le> (of_char c :: nat) \<and> (of_char c :: nat) \<le> 90
                      then char_of ((of_char c :: nat) + 32) else c) s"

definition unsure :: "string \<Rightarrow> bool" where
  "unsure str =
     (contains str ''not sure''
      \<or> contains str ''unsure''
      \<or> contains str ''don't know''
      \<or> contains str ''dont know''
      \<or> contains str ''do not know'')"

text \<open>
  What \<open>respond\<close> meets: the text of the agent's answer or the exception of
  \<open>support_agent.run\<close>; the rendering \<open>markdown.markdown\<close>; whether \<open>telegram_bot\<close> is
  set; what \<open>await telegram_bot.notify_and_wait_for_action(thread, draft_email)\<close> gives,
  given the thread and the draft; and the default \<open>date\<close> of class \<open>Email\<close>
  (\<open>datetime.now()\<close>, read once when the class is defined).
\<close>

record respond_env =
  agent_run :: "exc + string"
  markdown :: "string \<Rightarrow> string"
  telegram_bot :: bool
  approval :: "email list \<Rightarrow> email \<Rightarrow> exc + email option"
  default_date :: int

definition draft_for :: "respond_env \<Rightarrow> email \<Rightarrow> string \<Rightarrow> email" where
  "draft_for env most_recent body_md =
     \<lparr>email_id = [], to_address = from_address most_recent, from_address = to_address most_recent,
      subject = subject most_recent, body = markdown env body_md,
      date = Naive (default_date env), message_id = [], references = []\<rparr>"

definition draft_marker :: "respond_env \<Rightarrow> email" where
  "draft_marker env =
     \<lparr>email_id = ''DRAFT_MARKER'', to_address = ''DRAFT_MARKER'', from_address = ''DRAFT_MARKER'',
      subject = ''DRAFT_MARKER'', body = ''DRAFT_MARKER'',
      date = Naive (default_date env), message_id = [], references = []\<rparr>"

text \<open>
  \<open>respond\<close>, lines 103 to 200: the value returned or the exception raised, and the calls
  made. \<open>save_draft\<close> catches every \<open>Exception\<close> of its own and appears as one call.
\<close>

definition respond :: "respond_env \<Rightarrow> email list \<Rightarrow> (exc + email option) \<times> event list" where
  "respond env thread =
     (if thread = [] then (Inl IndexError, [])
      else (let most_recent = last thread in
        case agent_run env of
          Inl x \<Rightarrow> (Inl x, [])
        | Inr body_md \<Rightarrow>
            if unsure (lower body_md) then (Inr None, [])
            else (let draft = draft_for env most_recent body_md in
              if telegram_bot env then
                (case approval env thread draft of
                   Inr (Some approved) \<Rightarrow> (Inr (Some approved), [])
                 | Inr None \<Rightarrow> (Inr (Some (draft_marker env)), [SaveDraft draft])
                 | Inl x \<Rightarrow> if is_Exception x then (Inr (Some draft), []) else (Inl x, []))
              else (Inr (Some draft), []))))"

text \<open>
  What the SMTP and IMAP servers do for \<open>handle_thread\<close>: the outcomes of
  \<open>_connect_to_smtp\<close>, \<open>send_message\<close>, \<open>quit\<close> and \<open>mark_as_read\<close>.
\<close>

record smtp_env =
  connect_to_smtp :: "exc option"
  send :: "exc option"
  quit :: "exc option"
  store :: "exc option"

text \<open>The \<open>try\<close> block of \<open>handle_thread\<close>, lines 264 to 276, for a thread that is not empty.\<close>

definition handle_thread_try ::
  "smtp_env \<Rightarrow> (email list \<Rightarrow> (exc + email option) \<times> event list) \<Rightarrow> email list
     \<Rightarrow> exc option \<times> event list" where
  "handle_thread_try env respond_fn thread =
     (let most_recent = last thread; evs = snd (respond_fn thread) in
      case fst (respond_fn thread) of
        Inl x \<Rightarrow> (Some x, evs)
      | Inr None \<Rightarrow> (None, evs)
      | Inr (Some response) \<Rightarrow>
          if email_id response = ''DRAFT_MARKER'' then (None, evs)
          else (case connect_to_smtp env of
                  Some x \<Rightarrow> (Some x, evs @ [SmtpConnect])
                | None \<Rightarrow>
                    (case send env of
                       Some x \<Rightarrow> (Some x, evs @ [SmtpConnect, SmtpSend response])
                     | None \<Rightarrow>
                         (case quit env of
                            Some x \<Rightarrow> (Some x, evs @ [SmtpConnect, SmtpSend response, SmtpQuit])
                          | None \<Rightarrow>
                              (store env,
                               evs @ [SmtpConnect, SmtpSend response, SmtpQuit,
                                      MarkAsRead (email_id most_recent)])))))"

text \<open>
  \<open>handle_thread\<close>, lines 258 to 283, on the dictionary \<open>active_tasks\<close> (a key maps to the
  thread its task handles). \<open>email_thread[-1]\<close> stands before the \<open>try\<close>; \<open>except Exception\<close>
  swallows every \<open>Exception\<close>; the \<open>finally\<close> clause runs \<open>active_tasks.pop(email_id, None)\<close>
  whatever happened in the \<open>try\<close> block. The first component is the exception that leaves
  the coroutine.
\<close>

definition handle_thread ::
  "smtp_env \<Rightarrow> (email list \<Rightarrow> (exc + email option) \<times> event list) \<Rightarrow> email list
     \<Rightarrow> (string \<rightharpoonup> email list) \<Rightarrow> exc option \<times> event list \<times> (string \<rightharpoonup> email list)" where
  "handle_thread env respond_fn thread active_tasks =
     (if thread = [] then (Some IndexError, [], active_tasks)
      else (let r = handle_thread_try env respond_fn thread in
            (case fst r of
               None \<Rightarrow> None
             | Some x \<Rightarrow> if is_Exception x then None else Some x,
             snd r,
             active_tasks(email_id (last thread) := None))))"

text \<open>
  One iteration of the loop of \<open>process_with_draft_handling\<close>, lines 299 to 311, for a thread
  that is not empty: whether a task was spawned, and the dictionary afterwards.
\<close>

definition spawn :: "email list \<Rightarrow> (string \<rightharpoonup> email list) \<Rightarrow> bool \<times> (string \<rightharpoonup> email list)" where
  "spawn thread active_tasks =
     (case active_tasks (email_id (last thread)) of
        Some t \<Rightarrow> (False, active_tasks)
      | None \<Rightarrow> (True, active_tasks(email_id (last thread) \<mapsto> thread)))"

fun spawn_all :: "email list list \<Rightarrow> (string \<rightharpoonup> email list) \<Rightarrow> exc option \<times> (string \<rightharpoonup> email list)" where
  "spawn_all [] active_tasks = (None, active_tasks)"
| "spawn_all (thread # rest) active_tasks =
     (if thread = [] then (Some IndexError, active_tasks)
      else spawn_all rest (snd (spawn thread active_tasks)))"

text \<open>
  What one poll meets: the outcome of \<open>_ensure_imap_connection\<close>, which raises again what it
  caught, and the mailbox.
\<close>

record poll_env =
  imap_connection :: "exc option"
  mailbox :: imap

definition process_with_draft_handling ::
  "poll_env \<Rightarrow> (string \<rightharpoonup> email list) \<Rightarrow> exc option \<times> (string \<rightharpoonup> email list)" where
  "process_with_draft_handling env active_tasks =
     (case imap_connection env of
        Some x \<Rightarrow> (Some x, active_tasks)
      | None \<Rightarrow>
          (case get_unread_emails (mailbox env) of
             Inl x \<Rightarrow> (Some x, active_tasks)
           | Inr unread_threads \<Rightarrow>
               if unread_threads = [] then (None, active_tasks)
               else spawn_all unread_threads active_tasks))"

text \<open>
  A handling task that runs to its end while the loop sleeps: its key and the environment
  it meets. The exception of a task stays in the task object, which nobody awaits.
\<close>

record finishing =
  task_key :: string
  task_smtp :: smtp_env
  task_respond :: "email list \<Rightarrow> (exc + email option) \<times> event list"

fun finish_tasks :: "finishing list \<Rightarrow> (string \<rightharpoonup> email list) \<Rightarrow> event list \<times> (string \<rightharpoonup> email list)" where
  "finish_tasks [] active_tasks = ([], active_tasks)"
| "finish_tasks (f # fs) active_tasks =
     (case active_tasks (task_key f) of
        None \<Rightarrow> finish_tasks fs active_tasks
      | Some thread \<Rightarrow>
          (let r = handle_thread (task_smtp f) (task_respond f) thread active_tasks;
               rest = finish_tasks fs (snd (snd r))
           in (fst (snd r) @ fst rest, snd rest)))"

text \<open>
  The loop of \<open>main\<close>, lines 352 to 363, over the polls given: \<open>try\<close> stands around
  \<open>while True\<close>, so an exception of \<open>process_with_draft_handling\<close> leaves the loop, is
  printed, and \<open>main\<close> goes on to stop the bot. \<open>Polling\<close>: every poll given was made and the
  loop is still running.
\<close>

record cycle =
  poll :: poll_env
  during_sleep :: "finishing list"

datatype loop_state = Polling | Stopped exc

record orchestrator =
  active_tasks :: "string \<rightharpoonup> email list"
  calls :: "event list"
  polls_made :: nat

fun main_loop :: "cycle list \<Rightarrow> orchestrator \<Rightarrow> loop_state \<times> orchestrator" where
  "main_loop [] st = (Polling, st)"
| "main_loop (c # cs) st =
     (let r = process_with_draft_handling (poll c) (active_tasks st) in
      case fst r of
        Some x \<Rightarrow> (Stopped x, st\<lparr>active_tasks := snd r, polls_made := polls_made st + 1\<rparr>)
      | None \<Rightarrow>
          (let f = finish_tasks (during_sleep c) (snd r) in
           main_loop cs
             (st\<lparr>active_tasks := snd f, calls := calls st @ [Sleep 30] @ fst f,
                 polls_made := polls_made st + 1\<rparr>)))"

text \<open>
  The dictionary \<open>active_tasks\<close> under a sequence of operations: \<open>Poll t\<close> is one iteration
  of the spawning loop for the thread \<open>t\<close> (an empty thread raises before the dictionary is
  touched), \<open>Finish t s r\<close> is a run of \<open>handle_thread\<close> for \<open>t\<close> to its end. \<open>run_ops\<close> lists,
  for every iteration that reached the dictionary, its key and whether a task was spawned.
\<close>

datatype task_op =
    Poll "email list"
  | Finish "email list" smtp_env "email list \<Rightarrow> (exc + email option) \<times> event list"

fun run_ops :: "task_op list \<Rightarrow> (string \<rightharpoonup> email list) \<Rightarrow> (string \<times> bool) list" where
  "run_ops [] tasks = []"
| "run_ops (Poll t # ops) tasks =
     (if t = [] then run_ops ops tasks
      else (email_id (last t), fst (spawn t tasks)) # run_ops ops (snd (spawn t tasks)))"
| "run_ops (Finish t s r # ops) tasks = run_ops ops (snd (snd (handle_thread s r t tasks)))"

fun acquires :: "string \<Rightarrow> task_op \<Rightarrow> bool" where
  "acquires k (Poll t) = (t \<noteq> [] \<and> email_id (last t) = k)"
| "acquires k (Finish t s r) = False"

fun releases :: "string \<Rightarrow> task_op \<Rightarrow> bool" where
  "releases k (Poll t) = False"
| "releases k (Finish t s r) = (t \<noteq> [] \<and> email_id (last t) = k)"

text \<open>Every task in the dictionary handles a thread that is not empty, under the key of its
  most recent message.\<close>

definition tasks_ok :: "(string \<rightharpoonup> email list) \<Rightarrow> bool" where
  "tasks_ok tasks = (\<forall>k t. tasks k = Some t \<longrightarrow> t \<noteq> [] \<and> email_id (last t) = k)"

section \<open>Example inputs\<close>

definition example_email :: email where
  "example_email =
     \<lparr>email_id = ''7'', to_address = ''support@x.com'', from_address = ''alice@x.com'',
      subject = ''Help'', body = ''How do I reset my password?'', date = Aware 100,
      message_id = ''<m7@x.com>'', references = []\<rparr>"

definition example_reply :: email where
  "example_reply =
     \<lparr>email_id = [], to_address = ''alice@x.com'', from_address = ''support@x.com'',
      subject = ''Help'', body = ''Click Forgot Password.'', date = Naive 0,
      message_id = [], references = []\<rparr>"

definition bot_start :: bot where
  "bot_start = \<lparr>pending_actions = Map.empty, chat_log = [], waiter = Idle, handler = NoCallback\<rparr>"

definition notified :: bot where
  "notified = notify_and_wait_for_action ''1704103200.0'' [example_email] example_reply bot_start"




definition raw_help :: raw_message where
  "raw_help =
     \<lparr>subject_hdr = Some ''Help'', from_addr = ''alice@x.com'', to_addr = ''support@x.com'',
      date_hdr = Some ''Mon, 01 Jan 2024 10:00:00 +0000'', message_id_hdr = Some ''<m1@x.com>'',
      references_hdr = None, text_body = ''How do I reset my password?''\<rparr>"

definition raw_undated :: raw_message where
  "raw_undated =
     \<lparr>subject_hdr = Some ''Re: Help'', from_addr = ''alice@x.com'', to_addr = ''support@x.com'',
      date_hdr = None, message_id_hdr = Some ''<m2@x.com>'',
      references_hdr = Some ''<m1@x.com>'', text_body = ''Any news?''\<rparr>"

text \<open>
  A mailbox with one thread group of two messages: message 1 carries a Date header with a
  zone, message 2, the unseen one, carries none.
\<close>

definition mailbox_undated :: imap where
  "mailbox_undated =
     \<lparr>fetch_message = (\<lambda>i. if i = ''1'' then Some raw_help
                            else if i = ''2'' then Some raw_undated else None),
      parsedate_to_datetime =
        (\<lambda>d. if d = ''Mon, 01 Jan 2024 10:00:00 +0000'' then Some (Aware 1704103200) else None),
      now = (\<lambda>i. 1720000000),
      gm_thrid = (\<lambda>i. if i = ''1'' \<or> i = ''2'' then Some ''1787'' else None),
      search_thrid = (\<lambda>t. if t = ''1787'' then [''1'', ''2''] else []),
      references_line = (\<lambda>i. None),
      search_message_id = (\<lambda>r. []),
      search_unseen = [''2'']\<rparr>"

text \<open>A mailbox with one unseen message, dated, alone in its thread group.\<close>

definition mailbox_one :: imap where
  "mailbox_one =
     \<lparr>fetch_message = (\<lambda>i. if i = ''1'' then Some raw_help else None),
      parsedate_to_datetime =
        (\<lambda>d. if d = ''Mon, 01 Jan 2024 10:00:00 +0000'' then Some (Aware 1704103200) else None),
      now = (\<lambda>i. 1720000000),
      gm_thrid = (\<lambda>i. if i = ''1'' then Some ''1787'' else None),
      search_thrid = (\<lambda>t. if t = ''1787'' then [''1''] else []),
      references_line = (\<lambda>i. None),
      search_message_id = (\<lambda>r. []),
      search_unseen = [''1'']\<rparr>"

text \<open>
  A mailbox whose search lists message 5 as unseen while its fetch returns no data (the
  message was expunged in between).
\<close>

definition mailbox_expunged :: imap where
  "mailbox_expunged =
     \<lparr>fetch_message = (\<lambda>i. None),
      parsedate_to_datetime = (\<lambda>d. None),
      now = (\<lambda>i. 1720000000),
      gm_thrid = (\<lambda>i. None),
      search_thrid = (\<lambda>t. []),
      references_line = (\<lambda>i. None),
      search_message_id = (\<lambda>r. []),
      search_unseen = [''5'']\<rparr>"

definition orchestrator_start :: orchestrator where
  "orchestrator_start = \<lparr>active_tasks = Map.empty, calls = [], polls_made = 0\<rparr>"

definition smtp_works :: smtp_env where
  "smtp_works = \<lparr>connect_to_smtp = None, send = None, quit = None, store = None\<rparr>"

text \<open>
  An agent that answers, a configured bot, and an approval channel on which both
  \<open>send_message\<close> calls raise and nobody ever presses a button.
\<close>

definition channel_down :: respond_env where
  "channel_down =
     \<lparr>agent_run = Inr ''Click Forgot Password.'',
      markdown = (\<lambda>md. ''<p>'' @ md @ ''</p>''),
      telegram_bot = True,
      approval = await_approval ''1704103200.0''
                   [SendReturns (Inl TelegramError), SendReturns (Inl TelegramError)] bot_start,
      default_date = 0\<rparr>"

definition other_email :: email where
  "other_email = example_email\<lparr>email_id := ''8'', subject := ''Invoice''\<rparr>"

definition polls_example :: "task_op list" where
  "polls_example =
     [Poll [example_email], Poll [other_email], Poll [example_email],
      Finish [other_email] smtp_works (respond channel_down), Poll [example_email]]"

definition poll_unreachable :: cycle where
  "poll_unreachable =
     \<lparr>poll = \<lparr>imap_connection = Some IMAPError, mailbox = mailbox_one\<rparr>, during_sleep = []\<rparr>"

definition poll_one :: cycle where
  "poll_one = \<lparr>poll = \<lparr>imap_connection = None, mailbox = mailbox_one\<rparr>, during_sleep = []\<rparr>"

definition poll_expunged :: cycle where
  "poll_expunged = \<lparr>poll = \<lparr>imap_connection = None, mailbox = mailbox_expunged\<rparr>, during_sleep = []\<rparr>"

definition smtp_fails_twice :: "nat \<Rightarrow> attempt_env" where
  "smtp_fails_twice n =
     \<lparr>noop_ok = True, connect_in_try = None,
      send_message = (if n < 3 then Some (SMTPResponseException 451) else None),
      connect_in_handler = None\<rparr>"

definition smtp_always_fails :: "nat \<Rightarrow> attempt_env" where
  "smtp_always_fails n =
     \<lparr>noop_ok = True, connect_in_try = None,
      send_message = Some (SMTPResponseException 451),
      connect_in_handler = None\<rparr>"

definition smtp_disconnects_once :: "nat \<Rightarrow> attempt_env" where
  "smtp_disconnects_once n =
     \<lparr>noop_ok = True, connect_in_try = None,
      send_message = (if n = 1 then Some SMTPServerDisconnected
                      else Some (SMTPResponseException 451)),
      connect_in_handler = None\<rparr>"

section \<open>Verification: delivery with retry\<close>

lemma marked_read_append: "marked_read (xs @ ys) = marked_read xs @ marked_read ys"
  by (induction xs rule: marked_read.induct) simp_all

lemma delays_append: "delays (xs @ ys) = delays xs @ delays ys"
  by (induction xs rule: delays.induct) simp_all

lemma marked_read_try_calls: "marked_read (try_calls e m) = []"
  by (simp add: try_calls_def split: option.splits)

lemma delays_try_calls: "delays (try_calls e m) = []"
  by (simp add: try_calls_def split: option.splits)

lemma attempt_step_fails:
  assumes "attempt_fails e"
  shows "\<exists>st'. attempt_step e m n st = Continue st' \<and> attempt st' = n \<and> success st' = success st
           \<and> marked_read (trace st') = marked_read (trace st)"
proof -
  from assms obtain x where x: "try_raises e = Some x" "is_Exception x"
    "(x = SMTPServerDisconnected \<or> x = SMTPResponseException 451) \<longrightarrow> connect_in_handler e = None"
    by (auto simp: attempt_fails_def split: option.splits)
  show ?thesis
    using x by (cases x)
      (auto simp: attempt_step_def Let_def reconnect_def backoff_def marked_read_append marked_read_try_calls)
qed

lemma attempt_step_succeeds:
  assumes "try_raises e = None"
  shows "attempt_step e m n st = Break (st\<lparr>attempt := n, trace := trace st @ try_calls e m, success := True\<rparr>)"
  using assms by (simp add: attempt_step_def)

lemma attempt_step_marked_read:
  "marked_read (trace (state_of (attempt_step e m n st))) = marked_read (trace st)"
proof (cases "try_raises e")
  case None
  then show ?thesis by (simp add: attempt_step_def marked_read_append marked_read_try_calls)
next
  case (Some x)
  then show ?thesis
    by (cases x)
       (simp_all add: attempt_step_def Let_def reconnect_def backoff_def marked_read_append
          marked_read_try_calls split: option.splits)
qed

lemma retry_loop_marked_read:
  "marked_read (trace (state_of (retry_loop env m ns st))) = marked_read (trace st)"
proof (induction ns arbitrary: st)
  case Nil
  then show ?case by simp
next
  case (Cons n ns)
  show ?case
  proof (cases "attempt_step (env n) m n st")
    case (Continue st')
    with Cons.IH [of st'] attempt_step_marked_read [of "env n" m n st] show ?thesis by simp
  next
    case (Break st')
    with attempt_step_marked_read [of "env n" m n st] show ?thesis by simp
  next
    case (Raise x st')
    with attempt_step_marked_read [of "env n" m n st] show ?thesis by simp
  qed
qed

lemma attempts_upt: "[1 ..< max_retries + 1] = [1, 2, 3]"
  by (simp add: max_retries_def upt_rec)

lemma two_failures_then_sent:
  assumes "attempt_fails (env 1)" "attempt_fails (env 2)" "try_raises (env 3) = None"
  shows "\<exists>st. send_with_retry env m = Break st \<and> success st \<and> attempt st = 3 \<and> marked_read (trace st) = []"
proof -
  let ?s0 = retry_start
  from attempt_step_fails [OF assms(1), of m 1 ?s0] obtain s1 where
    s1: "attempt_step (env 1) m 1 ?s0 = Continue s1" "marked_read (trace s1) = []"
    by (auto simp: retry_start_def)
  from attempt_step_fails [OF assms(2), of m 2 s1] s1 obtain s2 where
    s2: "attempt_step (env 2) m 2 s1 = Continue s2" "marked_read (trace s2) = []" by auto
  show ?thesis
    unfolding send_with_retry_def attempts_upt
    using s1 s2 attempt_step_succeeds [OF assms(3), of m 3 s2]
    by (simp add: marked_read_append marked_read_try_calls)
qed

lemma three_failures_then_failed:
  assumes "attempt_fails (env 1)" "attempt_fails (env 2)" "attempt_fails (env 3)"
  shows "\<exists>st. send_with_retry env m = Continue st \<and> \<not> success st \<and> attempt st = 3 \<and> marked_read (trace st) = []"
proof -
  let ?s0 = retry_start
  from attempt_step_fails [OF assms(1), of m 1 ?s0] obtain s1 where
    s1: "attempt_step (env 1) m 1 ?s0 = Continue s1" "marked_read (trace s1) = []" "\<not> success s1"
    by (auto simp: retry_start_def)
  from attempt_step_fails [OF assms(2), of m 2 s1] s1 obtain s2 where
    s2: "attempt_step (env 2) m 2 s1 = Continue s2" "marked_read (trace s2) = []" "\<not> success s2" by auto
  from attempt_step_fails [OF assms(3), of m 3 s2] s2 obtain s3 where
    s3: "attempt_step (env 3) m 3 s2 = Continue s3" "marked_read (trace s3) = []" "\<not> success s3" "attempt s3 = 3" by auto
  show ?thesis
    unfolding send_with_retry_def attempts_upt
    using s1 s2 s3 by simp
qed

lemma geometric_backoff:
  assumes "geometric st"
  shows "geometric (backoff st)"
  using assms by (simp add: geometric_def backoff_def delays_append)

lemma geometric_calls:
  assumes "geometric st" "delays es = []"
  shows "geometric (st\<lparr>attempt := n, trace := trace st @ es\<rparr>)"
  using assms by (simp add: geometric_def delays_append)

lemma geometric_reconnect:
  assumes "geometric st"
  shows "geometric (state_of (reconnect e st))"
  using assms by (simp add: geometric_def reconnect_def Let_def delays_append split: option.splits)

lemma geometric_attempt_step:
  assumes "geometric st"
  shows "geometric (state_of (attempt_step e m n st))"
proof -
  let ?st1 = "st\<lparr>attempt := n, trace := trace st @ try_calls e m\<rparr>"
  have g1: "geometric ?st1"
    using assms by (rule geometric_calls) (rule delays_try_calls)
  show ?thesis
  proof (cases "try_raises e")
    case None
    with g1 show ?thesis by (simp add: attempt_step_def geometric_def)
  next
    case (Some x)
    then show ?thesis
      using g1 geometric_backoff [OF g1] geometric_reconnect [OF g1, of e]
        geometric_reconnect [OF geometric_backoff [OF g1], of e]
      by (cases x) (simp_all add: attempt_step_def Let_def)
  qed
qed

lemma geometric_retry_loop:
  assumes "geometric st"
  shows "geometric (state_of (retry_loop env m ns st))"
  using assms
proof (induction ns arbitrary: st)
  case Nil
  then show ?case by simp
next
  case (Cons n ns)
  from geometric_attempt_step [OF Cons.prems, of "env n" m n]
  show ?case
    using Cons.IH by (cases "attempt_step (env n) m n st") simp_all
qed

lemma geometric_send_with_retry: "geometric (state_of (send_with_retry env m))"
  unfolding send_with_retry_def
  by (rule geometric_retry_loop) (simp add: geometric_def retry_start_def)

lemma disconnect_step:
  assumes "try_raises e = Some SMTPServerDisconnected"
  shows "delays (trace (state_of (attempt_step e m n st))) = delays (trace st)
         \<and> retry_delay (state_of (attempt_step e m n st)) = retry_delay st
         \<and> trace (state_of (attempt_step e m n st)) = trace st @ try_calls e m @ [SmtpConnect]"
  using assms
  by (simp add: attempt_step_def Let_def reconnect_def delays_append delays_try_calls split: option.splits)

lemma rate_step:
  assumes "try_raises e = Some (SMTPResponseException 451)"
  shows "delays (trace (state_of (attempt_step e m n st))) = delays (trace st) @ [retry_delay st]
         \<and> retry_delay (state_of (attempt_step e m n st)) = 2 * retry_delay st
         \<and> trace (state_of (attempt_step e m n st)) = trace st @ try_calls e m @ [Sleep (retry_delay st), SmtpConnect]"
  using assms
  by (simp add: attempt_step_def Let_def reconnect_def backoff_def delays_append delays_try_calls split: option.splits)

lemma marked_read_send_with_retry:
  "marked_read (trace (state_of (send_with_retry env m))) = []"
  unfolding send_with_retry_def by (simp add: retry_loop_marked_read retry_start_def)

lemma deliver_not_sent_unread:
  assumes "fst (deliver env mark_read most_recent response) \<noteq> Sent"
  shows "marked_read (trace (snd (deliver env mark_read most_recent response))) = []"
proof -
  let ?m = "response\<lparr>message_id := message_id most_recent, references := references most_recent\<rparr>"
  from marked_read_send_with_retry [of env ?m] assms show ?thesis
    by (cases "send_with_retry env ?m") (auto simp: deliver_def finish_def split: if_splits)
qed

lemma sends_append: "sends (xs @ ys) = sends xs @ sends ys"
  by (induction xs rule: sends.induct) simp_all

lemma sends_try_calls: "length (sends (try_calls e m)) \<le> 1"
  by (simp add: try_calls_def split: option.splits)

lemma attempt_step_bounds:
  "attempt (state_of (attempt_step e m n st)) = n
   \<and> length (sends (trace (state_of (attempt_step e m n st)))) \<le> Suc (length (sends (trace st)))"
proof (cases "try_raises e")
  case None
  then show ?thesis
    using sends_try_calls [of e m] by (simp add: attempt_step_def sends_append)
next
  case (Some x)
  then show ?thesis
    using sends_try_calls [of e m]
    by (cases x)
       (simp_all add: attempt_step_def Let_def reconnect_def backoff_def sends_append
          split: option.splits)
qed

lemma retry_loop_bounds:
  "attempt (state_of (retry_loop env m ns st)) \<in> insert (attempt st) (set ns)
   \<and> length (sends (trace (state_of (retry_loop env m ns st)))) \<le> length (sends (trace st)) + length ns"
proof (induction ns arbitrary: st)
  case Nil
  then show ?case by simp
next
  case (Cons n ns)
  note b = attempt_step_bounds [of "env n" m n st]
  show ?case
  proof (cases "attempt_step (env n) m n st")
    case (Continue st')
    with b Cons.IH [of st'] show ?thesis by auto
  next
    case (Break st')
    with b show ?thesis by auto
  next
    case (Raise x st')
    with b show ?thesis by auto
  qed
qed

lemma send_with_retry_bounds:
  "attempt (state_of (send_with_retry env m)) \<le> 3
   \<and> length (sends (trace (state_of (send_with_retry env m)))) \<le> 3"
  using retry_loop_bounds [of env m "[1, 2, 3]" retry_start]
  unfolding send_with_retry_def attempts_upt
  by (auto simp: retry_start_def)

lemma deliver_bounds:
  "attempt (snd (deliver env mark_read most_recent response)) \<le> 3
   \<and> length (sends (trace (snd (deliver env mark_read most_recent response)))) \<le> 3"
proof -
  let ?m = "response\<lparr>message_id := message_id most_recent, references := references most_recent\<rparr>"
  from send_with_retry_bounds [of env ?m] show ?thesis
    by (cases "send_with_retry env ?m") (auto simp: deliver_def finish_def sends_append)
qed

lemma attempt_step_raises:
  assumes "try_raises e \<noteq> None"
  shows "success (state_of (attempt_step e m n st)) = success st
         \<and> (\<forall>st'. attempt_step e m n st \<noteq> Break st')"
proof -
  from assms obtain x where x: "try_raises e = Some x" by auto
  then show ?thesis
    by (cases x)
       (simp_all add: attempt_step_def Let_def reconnect_def backoff_def split: option.splits)
qed

lemma retry_loop_raises:
  assumes "\<forall>n\<in>set ns. try_raises (env n) \<noteq> None"
  shows "success (state_of (retry_loop env m ns st)) = success st
         \<and> (\<forall>st'. retry_loop env m ns st \<noteq> Break st')"
  using assms
proof (induction ns arbitrary: st)
  case Nil
  then show ?case by simp
next
  case (Cons n ns)
  from Cons.prems have "try_raises (env n) \<noteq> None" by simp
  note r = attempt_step_raises [OF this, of m n st]
  from Cons.prems have rest: "\<forall>n\<in>set ns. try_raises (env n) \<noteq> None" by simp
  show ?case
  proof (cases "attempt_step (env n) m n st")
    case (Continue st')
    with r Cons.IH [OF rest, of st'] show ?thesis by simp
  next
    case (Break st')
    with r show ?thesis by simp
  next
    case (Raise x st')
    with r show ?thesis by simp
  qed
qed

lemma deliver_never_sent:
  assumes "try_raises (env 1) \<noteq> None" "try_raises (env 2) \<noteq> None" "try_raises (env 3) \<noteq> None"
  shows "fst (deliver env mark_read most_recent response) \<noteq> Sent"
proof -
  let ?m = "response\<lparr>message_id := message_id most_recent, references := references most_recent\<rparr>"
  from assms have "\<forall>n\<in>set [1, 2, 3]. try_raises (env n) \<noteq> None" by simp
  from retry_loop_raises [OF this, of ?m retry_start]
  have "success (state_of (send_with_retry env ?m)) = False"
    unfolding send_with_retry_def attempts_upt by (simp add: retry_start_def)
  then show ?thesis
    by (cases "send_with_retry env ?m") (auto simp: deliver_def finish_def)
qed

text \<open>
  Claim C6. When the first two attempts fail and the third succeeds, the outcome is \<open>Sent\<close>
  and the loop variable ends at 3 (and the most recent message is marked read when
  \<open>mark_read\<close> is set). When all three attempts fail, the outcome is \<open>Failed\<close>, the loop ends
  after attempt 3 and the most recent message is not marked read. Whatever the servers do:
  an outcome other than \<open>Sent\<close> leaves the message unread; three \<open>try\<close> blocks that raise
  never give \<open>Sent\<close>; and there is no fourth attempt and no fourth call of \<open>send_message\<close>.
\<close>

theorem delivery_retry_bound:
  "(attempt_fails (env 1) \<and> attempt_fails (env 2) \<and> try_raises (env 3) = None \<longrightarrow>
      fst (deliver env mark_read most_recent response) = Sent
      \<and> attempt (snd (deliver env mark_read most_recent response)) = 3
      \<and> (mark_read \<longrightarrow>
            marked_read (trace (snd (deliver env mark_read most_recent response)))
              = [email_id most_recent]))
   \<and> (attempt_fails (env 1) \<and> attempt_fails (env 2) \<and> attempt_fails (env 3) \<longrightarrow>
      fst (deliver env mark_read most_recent response) = Failed
      \<and> attempt (snd (deliver env mark_read most_recent response)) = 3
      \<and> marked_read (trace (snd (deliver env mark_read most_recent response))) = [])
   \<and> (fst (deliver env mark_read most_recent response) \<noteq> Sent \<longrightarrow>
      marked_read (trace (snd (deliver env mark_read most_recent response))) = [])
   \<and> (try_raises (env 1) \<noteq> None \<and> try_raises (env 2) \<noteq> None \<and> try_raises (env 3) \<noteq> None \<longrightarrow>
      fst (deliver env mark_read most_recent response) \<noteq> Sent)
   \<and> attempt (snd (deliver env mark_read most_recent response)) \<le> 3
   \<and> length (sends (trace (snd (deliver env mark_read most_recent response)))) \<le> 3"
proof (intro conjI impI)
  let ?m = "response\<lparr>message_id := message_id most_recent, references := references most_recent\<rparr>"
  {
    assume a: "attempt_fails (env 1) \<and> attempt_fails (env 2) \<and> try_raises (env 3) = None"
    then obtain st where st: "send_with_retry env ?m = Break st" "success st" "attempt st = 3"
      "marked_read (trace st) = []"
      using two_failures_then_sent [of env ?m] by blast
    then show "fst (deliver env mark_read most_recent response) = Sent"
      by (simp add: deliver_def finish_def)
    from st show "attempt (snd (deliver env mark_read most_recent response)) = 3"
      by (simp add: deliver_def finish_def)
    {
      assume mark_read
      with st show "marked_read (trace (snd (deliver env mark_read most_recent response)))
              = [email_id most_recent]"
        by (simp add: deliver_def finish_def marked_read_append)
    }
  }
  {
    assume a: "attempt_fails (env 1) \<and> attempt_fails (env 2) \<and> attempt_fails (env 3)"
    then obtain st where st: "send_with_retry env ?m = Continue st" "\<not> success st" "attempt st = 3"
      "marked_read (trace st) = []"
      using three_failures_then_failed [of env ?m] by blast
    then show "fst (deliver env mark_read most_recent response) = Failed"
      by (simp add: deliver_def finish_def)
    from st show "attempt (snd (deliver env mark_read most_recent response)) = 3"
      by (simp add: deliver_def finish_def)
    from st show "marked_read (trace (snd (deliver env mark_read most_recent response))) = []"
      by (simp add: deliver_def finish_def)
  }
  {
    assume "fst (deliver env mark_read most_recent response) \<noteq> Sent"
    then show "marked_read (trace (snd (deliver env mark_read most_recent response))) = []"
      by (rule deliver_not_sent_unread)
  }
  {
    assume "try_raises (env 1) \<noteq> None \<and> try_raises (env 2) \<noteq> None \<and> try_raises (env 3) \<noteq> None"
    then show "fst (deliver env mark_read most_recent response) \<noteq> Sent"
      using deliver_never_sent [of env mark_read most_recent response] by blast
  }
  show "attempt (snd (deliver env mark_read most_recent response)) \<le> 3"
    using deliver_bounds [of env mark_read most_recent response] by blast
  show "length (sends (trace (snd (deliver env mark_read most_recent response)))) \<le> 3"
    using deliver_bounds [of env mark_read most_recent response] by blast
qed

theorem delivery_retry_bound_witness:
  "attempt_fails (smtp_fails_twice 1) \<and> attempt_fails (smtp_fails_twice 2)
   \<and> try_raises (smtp_fails_twice 3) = None
   \<and> fst (deliver smtp_fails_twice True example_email example_reply) = Sent
   \<and> attempt (snd (deliver smtp_fails_twice True example_email example_reply)) = 3
   \<and> marked_read (trace (snd (deliver smtp_fails_twice True example_email example_reply))) = [''7'']
   \<and> attempt_fails (smtp_always_fails 1) \<and> attempt_fails (smtp_always_fails 2)
   \<and> attempt_fails (smtp_always_fails 3)
   \<and> fst (deliver smtp_always_fails True example_email example_reply) = Failed
   \<and> attempt (snd (deliver smtp_always_fails True example_email example_reply)) = 3
   \<and> marked_read (trace (snd (deliver smtp_always_fails True example_email example_reply))) = []"
proof -
  have a: "attempt_fails (smtp_fails_twice 1) \<and> attempt_fails (smtp_fails_twice 2)
           \<and> try_raises (smtp_fails_twice 3) = None"
    by (simp add: attempt_fails_def try_raises_def smtp_fails_twice_def)
  have b: "attempt_fails (smtp_always_fails 1) \<and> attempt_fails (smtp_always_fails 2)
           \<and> attempt_fails (smtp_always_fails 3)"
    by (simp add: attempt_fails_def try_raises_def smtp_always_fails_def)
  have c: "email_id example_email = ''7''"
    by (simp add: example_email_def)
  show ?thesis
    using a b c
      delivery_retry_bound [of smtp_fails_twice True example_email example_reply]
      delivery_retry_bound [of smtp_always_fails True example_email example_reply]
    by simp
qed

text \<open>
  Claim C7. In every run of the retry loop the delays slept are 2, 4, 8, ... in this order:
  the first is 2 and each next one is twice the one before. A failure with code 451 sleeps
  \<open>retry_delay\<close>, doubles it and reconnects. A disconnect reconnects without sleeping and
  leaves \<open>retry_delay\<close> as it was; when the reconnection returns, the loop goes on to the next
  attempt.
\<close>

theorem backoff_growth:
  "delays (trace (state_of (send_with_retry env message)))
     = map (\<lambda>i. 2 * 2 ^ i) [0 ..< length (delays (trace (state_of (send_with_retry env message))))]
   \<and> (try_raises e = Some (SMTPResponseException 451) \<longrightarrow>
        delays (trace (state_of (attempt_step e message n st))) = delays (trace st) @ [retry_delay st]
        \<and> retry_delay (state_of (attempt_step e message n st)) = 2 * retry_delay st
        \<and> trace (state_of (attempt_step e message n st))
            = trace st @ try_calls e message @ [Sleep (retry_delay st), SmtpConnect])
   \<and> (try_raises e = Some SMTPServerDisconnected \<longrightarrow>
        delays (trace (state_of (attempt_step e message n st))) = delays (trace st)
        \<and> retry_delay (state_of (attempt_step e message n st)) = retry_delay st
        \<and> trace (state_of (attempt_step e message n st))
            = trace st @ try_calls e message @ [SmtpConnect]
        \<and> (connect_in_handler e = None \<longrightarrow>
             attempt_step e message n st
               = Continue (st\<lparr>attempt := n, trace := trace st @ try_calls e message @ [SmtpConnect]\<rparr>)))"
proof (intro conjI impI)
  show "delays (trace (state_of (send_with_retry env message)))
     = map (\<lambda>i. 2 * 2 ^ i) [0 ..< length (delays (trace (state_of (send_with_retry env message))))]"
    using geometric_send_with_retry [of env message] by (simp add: geometric_def)
next
  assume "try_raises e = Some (SMTPResponseException 451)"
  from rate_step [OF this, of message n st]
  show "delays (trace (state_of (attempt_step e message n st))) = delays (trace st) @ [retry_delay st]"
    and "retry_delay (state_of (attempt_step e message n st)) = 2 * retry_delay st"
    and "trace (state_of (attempt_step e message n st))
            = trace st @ try_calls e message @ [Sleep (retry_delay st), SmtpConnect]"
    by blast+
next
  assume d: "try_raises e = Some SMTPServerDisconnected"
  from disconnect_step [OF d, of message n st]
  show "delays (trace (state_of (attempt_step e message n st))) = delays (trace st)"
    and "retry_delay (state_of (attempt_step e message n st)) = retry_delay st"
    and "trace (state_of (attempt_step e message n st))
            = trace st @ try_calls e message @ [SmtpConnect]"
    by blast+
  assume "connect_in_handler e = None"
  with d show "attempt_step e message n st
               = Continue (st\<lparr>attempt := n, trace := trace st @ try_calls e message @ [SmtpConnect]\<rparr>)"
    by (simp add: attempt_step_def Let_def reconnect_def)
qed


theorem backoff_growth_witness:
  "try_raises (smtp_always_fails 1) = Some (SMTPResponseException 451)
   \<and> delays (trace (state_of (attempt_step (smtp_always_fails 1) example_reply 1 retry_start))) = [2]
   \<and> retry_delay (state_of (attempt_step (smtp_always_fails 1) example_reply 1 retry_start)) = 4
   \<and> try_raises (smtp_disconnects_once 1) = Some SMTPServerDisconnected
   \<and> connect_in_handler (smtp_disconnects_once 1) = None
   \<and> delays (trace (state_of (attempt_step (smtp_disconnects_once 1) example_reply 1 retry_start))) = []
   \<and> retry_delay (state_of (attempt_step (smtp_disconnects_once 1) example_reply 1 retry_start)) = 2
   \<and> delays (trace (state_of (send_with_retry smtp_always_fails example_reply))) = [2, 4, 8]
   \<and> delays (trace (state_of (send_with_retry smtp_disconnects_once example_reply))) = [2, 4]"
proof -
  have a: "try_raises (smtp_always_fails 1) = Some (SMTPResponseException 451)"
    by (simp add: try_raises_def smtp_always_fails_def)
  have b: "try_raises (smtp_disconnects_once 1) = Some SMTPServerDisconnected"
    "connect_in_handler (smtp_disconnects_once 1) = None"
    by (simp_all add: try_raises_def smtp_disconnects_once_def)
  have c: "delays (trace (state_of (send_with_retry smtp_always_fails example_reply))) = [2, 4, 8]"
    unfolding send_with_retry_def attempts_upt
    by (simp add: attempt_step_def Let_def smtp_always_fails_def try_raises_def try_calls_def
          reconnect_def backoff_def retry_start_def)
  have d: "delays (trace (state_of (send_with_retry smtp_disconnects_once example_reply))) = [2, 4]"
    unfolding send_with_retry_def attempts_upt
    by (simp add: attempt_step_def Let_def smtp_disconnects_once_def try_raises_def try_calls_def
          reconnect_def backoff_def retry_start_def)
  have e: "delays (trace retry_start) = []" "retry_delay retry_start = 2"
    by (simp_all add: retry_start_def)
  from a backoff_growth [of smtp_always_fails example_reply "smtp_always_fails 1" 1 retry_start]
  have f: "delays (trace (state_of (attempt_step (smtp_always_fails 1) example_reply 1 retry_start)))
             = delays (trace retry_start) @ [retry_delay retry_start]"
    "retry_delay (state_of (attempt_step (smtp_always_fails 1) example_reply 1 retry_start))
       = 2 * retry_delay retry_start"
    by blast+
  from b backoff_growth [of smtp_always_fails example_reply "smtp_disconnects_once 1" 1 retry_start]
  have g: "delays (trace (state_of (attempt_step (smtp_disconnects_once 1) example_reply 1 retry_start)))
             = delays (trace retry_start)"
    "retry_delay (state_of (attempt_step (smtp_disconnects_once 1) example_reply 1 retry_start))
       = retry_delay retry_start"
    by blast+
  show ?thesis
    using a b c d e f g by simp
qed

section \<open>Verification: approval rendezvous\<close>

lemma run_append: "run (xs @ ys) b = run ys (run xs b)"
  by (induction xs arbitrary: b) simp_all

























lemma notified_state:
  "waiter notified = AwaitSendHtml ''7'' [example_email] example_reply"
  "pending_actions notified = Map.empty"
  "chat_log notified = [Notify ''7'' True]"
  "handler notified = NoCallback"
  by (simp_all add: notified_def notify_and_wait_for_action_def unique_id_def
        bot_start_def example_email_def)







text \<open>
  Claim C3 at the input where the wait times out and \<open>edit_message_reply_markup\<close> raises:
  the exception leaves the coroutine, which returns nothing, and the entry for key 7 stays in
  \<open>pending_actions\<close>.
\<close>

theorem timeout_withdraw_failure:
  "waiter (run [SendReturns (Inr 42), TimeoutFires, WithdrawReturns (Some TelegramError)] notified)
     = Threw TelegramError
   \<and> pending_actions
        (run [SendReturns (Inr 42), TimeoutFires, WithdrawReturns (Some TelegramError)] notified) ''7''
     = Some \<lparr>email_thread = [example_email], draft_email = example_reply, event = False, result = None\<rparr>"
  using notified_state by (simp add: register_def)

text \<open>When the withdrawal returns, the timeout gives \<open>None\<close> and the entry is deleted.\<close>

lemma timeout_withdraw_ok:
  assumes "waiter b = AwaitEvent k mid" "pending_actions b k = Some p" "\<not> event p"
  shows "waiter (run [TimeoutFires, WithdrawReturns None] b) = Returned None
         \<and> pending_actions (run [TimeoutFires, WithdrawReturns None] b) = (pending_actions b)(k := None)
         \<and> chat_log (run [TimeoutFires, WithdrawReturns None] b) = chat_log b @ [RemoveButtons mid]"
  using assms by simp

section \<open>Verification: task registry\<close>

lemma spawn_held:
  assumes "tasks (email_id (last t)) \<noteq> None"
  shows "spawn t tasks = (False, tasks)"
  using assms by (auto simp: spawn_def split: option.splits)

lemma spawn_free:
  assumes "tasks (email_id (last t)) = None"
  shows "spawn t tasks = (True, tasks(email_id (last t) \<mapsto> t))"
  using assms by (simp add: spawn_def)

lemma handle_thread_releases:
  assumes "t \<noteq> []"
  shows "snd (snd (handle_thread s r t tasks)) = tasks(email_id (last t) := None)"
  using assms by (simp add: handle_thread_def Let_def)

lemma handle_thread_empty: "snd (snd (handle_thread s r [] tasks)) = tasks"
  by (simp add: handle_thread_def)

lemma handle_thread_other:
  assumes "t = [] \<or> email_id (last t) \<noteq> k"
  shows "snd (snd (handle_thread s r t tasks)) k = tasks k"
  using assms by (cases "t = []") (simp_all add: handle_thread_empty handle_thread_releases)

lemma run_ops_held:
  assumes "tasks k \<noteq> None" "list_all (\<lambda>op. \<not> releases k op) ops"
  shows "map snd (filter (\<lambda>r. fst r = k) (run_ops ops tasks))
           = replicate (length (filter (acquires k) ops)) False"
  using assms
proof (induction ops arbitrary: tasks)
  case Nil
  then show ?case by simp
next
  case (Cons op ops)
  show ?case
  proof (cases op)
    case (Poll t)
    show ?thesis
    proof (cases "t = []")
      case True
      with Poll Cons show ?thesis by simp
    next
      case False
      show ?thesis
      proof (cases "email_id (last t) = k")
        case True
        with Cons.prems(1) have "spawn t tasks = (False, tasks)"
          by (simp add: spawn_held)
        with Poll False True Cons show ?thesis by simp
      next
        case other: False
        have "snd (spawn t tasks) k = tasks k"
          using other by (auto simp: spawn_def split: option.splits)
        with Cons.prems(1) have "snd (spawn t tasks) k \<noteq> None" by simp
        from Cons.IH [of "snd (spawn t tasks)"] this Cons.prems(2) Poll False other
        show ?thesis by simp
      qed
    qed
  next
    case (Finish t s r)
    with Cons.prems(2) have "t = [] \<or> email_id (last t) \<noteq> k" by auto
    then have "snd (snd (handle_thread s r t tasks)) k = tasks k"
      by (rule handle_thread_other)
    with Cons.prems(1) have "snd (snd (handle_thread s r t tasks)) k \<noteq> None" by simp
    from Cons.IH [of "snd (snd (handle_thread s r t tasks))"] this Cons.prems(2) Finish
    show ?thesis by simp
  qed
qed

lemma run_ops_free:
  assumes "tasks k = None" "list_all (\<lambda>op. \<not> releases k op) ops"
  shows "map snd (filter (\<lambda>r. fst r = k) (run_ops ops tasks))
           = (if filter (acquires k) ops = [] then []
              else True # replicate (length (filter (acquires k) ops) - 1) False)"
  using assms
proof (induction ops arbitrary: tasks)
  case Nil
  then show ?case by simp
next
  case (Cons op ops)
  show ?case
  proof (cases op)
    case (Poll t)
    show ?thesis
    proof (cases "t = []")
      case True
      with Poll Cons show ?thesis by simp
    next
      case False
      show ?thesis
      proof (cases "email_id (last t) = k")
        case True
        with Cons.prems(1) have sp: "spawn t tasks = (True, tasks(k \<mapsto> t))"
          by (simp add: spawn_free)
        have "(tasks(k \<mapsto> t)) k \<noteq> None" by simp
        from run_ops_held [of "tasks(k \<mapsto> t)" k ops] this Cons.prems(2)
        have "map snd (filter (\<lambda>r. fst r = k) (run_ops ops (tasks(k \<mapsto> t))))
                = replicate (length (filter (acquires k) ops)) False"
          by simp
        with Poll False True sp show ?thesis by simp
      next
        case other: False
        have "snd (spawn t tasks) k = tasks k"
          using other by (auto simp: spawn_def split: option.splits)
        with Cons.prems(1) have "snd (spawn t tasks) k = None" by simp
        from Cons.IH [of "snd (spawn t tasks)"] this Cons.prems(2) Poll False other
        show ?thesis by simp
      qed
    qed
  next
    case (Finish t s r)
    with Cons.prems(2) have "t = [] \<or> email_id (last t) \<noteq> k" by auto
    then have "snd (snd (handle_thread s r t tasks)) k = tasks k"
      by (rule handle_thread_other)
    with Cons.prems(1) have "snd (snd (handle_thread s r t tasks)) k = None" by simp
    from Cons.IH [of "snd (snd (handle_thread s r t tasks))"] this Cons.prems(2) Finish
    show ?thesis by simp
  qed
qed

lemma spawn_keeps_tasks_ok:
  assumes "tasks_ok tasks" "thread \<noteq> []"
  shows "tasks_ok (snd (spawn thread tasks))"
  using assms by (auto simp: tasks_ok_def spawn_def split: option.splits)

lemma spawn_all_keeps_tasks_ok:
  assumes "tasks_ok tasks"
  shows "tasks_ok (snd (spawn_all threads tasks))"
  using assms
proof (induction threads arbitrary: tasks)
  case Nil
  then show ?case by simp
next
  case (Cons thread threads)
  show ?case
  proof (cases "thread = []")
    case True
    with Cons.prems show ?thesis by simp
  next
    case False
    from spawn_keeps_tasks_ok [OF Cons.prems False] Cons.IH False show ?thesis by simp
  qed
qed

lemma finish_task_releases:
  assumes "tasks_ok tasks"
  shows "snd (finish_tasks [f] tasks) (task_key f) = None"
proof (cases "tasks (task_key f)")
  case None
  then show ?thesis by simp
next
  case (Some thread)
  with assms have "thread \<noteq> []" "email_id (last thread) = task_key f"
    by (auto simp: tasks_ok_def)
  with Some show ?thesis
    by (simp add: Let_def handle_thread_releases)
qed

lemma tasks_ok_empty: "tasks_ok Map.empty"
  by (simp add: tasks_ok_def)

text \<open>
  Claim C4. Take any sequence of spawning-loop iterations and finished tasks in which no task
  for key \<open>k\<close> finishes, starting without \<open>k\<close> in \<open>active_tasks\<close>: of the iterations for
  \<open>k\<close>, the first spawns a task and every later one skips. For a thread that is not empty,
  \<open>handle_thread\<close> ends with the key removed whatever \<open>respond\<close> and the servers did
  (return, draft saved, failed delivery, exception caught or passed on); after that an
  iteration for the thread spawns again; removing twice is removing once; removing an absent
  key changes nothing; and a task that was spawned removes the key it was stored under. The
  spawning loop stores only threads that are not empty, each under the key of its most recent
  message, so a task of the dictionary that finishes removes its key.
\<close>

theorem registry_exclusive:
  "(tasks k = None \<and> list_all (\<lambda>op. \<not> releases k op) ops \<longrightarrow>
      map snd (filter (\<lambda>r. fst r = k) (run_ops ops tasks))
        = (if filter (acquires k) ops = [] then []
           else True # replicate (length (filter (acquires k) ops) - 1) False))
   \<and> (thread \<noteq> [] \<longrightarrow>
        snd (snd (handle_thread s r thread tasks)) = tasks(email_id (last thread) := None)
        \<and> fst (spawn thread (snd (snd (handle_thread s r thread tasks))))
        \<and> snd (snd (handle_thread s' r' thread (snd (snd (handle_thread s r thread tasks)))))
            = snd (snd (handle_thread s r thread tasks))
        \<and> (tasks (email_id (last thread)) = None \<longrightarrow>
              snd (snd (handle_thread s r thread tasks)) = tasks)
        \<and> (fst (spawn thread tasks) \<longrightarrow>
              snd (spawn thread tasks) (email_id (last thread)) = Some thread
              \<and> snd (snd (handle_thread s r thread (snd (spawn thread tasks))))
                   (email_id (last thread)) = None))
   \<and> (tasks_ok tasks \<longrightarrow>
        tasks_ok (snd (spawn_all threads tasks))
        \<and> snd (finish_tasks [f] tasks) (task_key f) = None)"
proof (intro conjI impI)
  assume "tasks k = None \<and> list_all (\<lambda>op. \<not> releases k op) ops"
  then show "map snd (filter (\<lambda>r. fst r = k) (run_ops ops tasks))
        = (if filter (acquires k) ops = [] then []
           else True # replicate (length (filter (acquires k) ops) - 1) False)"
    using run_ops_free [of tasks k ops] by blast
next
  assume t: "thread \<noteq> []"
  then show "snd (snd (handle_thread s r thread tasks)) = tasks(email_id (last thread) := None)"
    by (rule handle_thread_releases)
  from t show "fst (spawn thread (snd (snd (handle_thread s r thread tasks))))"
    by (simp add: handle_thread_releases spawn_def)
  from t show "snd (snd (handle_thread s' r' thread (snd (snd (handle_thread s r thread tasks)))))
            = snd (snd (handle_thread s r thread tasks))"
    by (simp add: handle_thread_releases)
  {
    assume "tasks (email_id (last thread)) = None"
    with t show "snd (snd (handle_thread s r thread tasks)) = tasks"
      by (auto simp: handle_thread_releases)
  }
  {
    assume "fst (spawn thread tasks)"
    then show "snd (spawn thread tasks) (email_id (last thread)) = Some thread"
      by (auto simp: spawn_def split: option.splits)
    from t show "snd (snd (handle_thread s r thread (snd (spawn thread tasks))))
                   (email_id (last thread)) = None"
      by (simp add: handle_thread_releases)
  }
next
  assume ok: "tasks_ok tasks"
  then show "tasks_ok (snd (spawn_all threads tasks))"
    by (rule spawn_all_keeps_tasks_ok)
  from ok show "snd (finish_tasks [f] tasks) (task_key f) = None"
    by (rule finish_task_releases)
qed

theorem registry_exclusive_witness:
  "(Map.empty :: string \<rightharpoonup> email list) ''7'' = None
   \<and> list_all (\<lambda>op. \<not> releases ''7'' op) polls_example
   \<and> map snd (filter (\<lambda>r. fst r = ''7'') (run_ops polls_example Map.empty)) = [True, False, False]
   \<and> [example_email] \<noteq> []
   \<and> fst (spawn [example_email] Map.empty)
   \<and> snd (spawn [example_email] Map.empty) ''7'' = Some [example_email]
   \<and> snd (snd (handle_thread smtp_works (respond channel_down) [example_email]
                 (snd (spawn [example_email] Map.empty)))) ''7'' = None
   \<and> fst (spawn [example_email]
             (snd (snd (handle_thread smtp_works (respond channel_down) [example_email]
                         (snd (spawn [example_email] Map.empty))))))
   \<and> tasks_ok Map.empty
   \<and> tasks_ok (snd (spawn_all [[example_email], [other_email]] Map.empty))"
proof -
  have k: "email_id (last [example_email]) = ''7''" "email_id other_email = ''8''"
    by (simp_all add: example_email_def other_email_def)
  have a: "(Map.empty :: string \<rightharpoonup> email list) ''7'' = None" by simp
  have b: "list_all (\<lambda>op. \<not> releases ''7'' op) polls_example"
    using k by (simp add: polls_example_def)
  have c: "filter (acquires ''7'') polls_example
             = [Poll [example_email], Poll [example_email], Poll [example_email]]"
    using k by (simp add: polls_example_def)
  have d: "fst (spawn [example_email] Map.empty)"
    by (simp add: spawn_def)
  have ne: "[example_email] \<noteq> []" by simp
  note t1 = registry_exclusive [of Map.empty "''7''" polls_example "[example_email]"
              smtp_works "respond channel_down" smtp_works "respond channel_down"
              "[[example_email], [other_email]]"]
  from t1 tasks_ok_empty
  have h: "tasks_ok (snd (spawn_all [[example_email], [other_email]] Map.empty))"
    by blast
  note t2 = registry_exclusive [of "snd (spawn [example_email] Map.empty)" "''7''" polls_example
              "[example_email]" smtp_works "respond channel_down" smtp_works "respond channel_down"]
  from t1 a b have e: "map snd (filter (\<lambda>r. fst r = ''7'') (run_ops polls_example Map.empty))
        = (if filter (acquires ''7'') polls_example = [] then []
           else True # replicate (length (filter (acquires ''7'') polls_example) - 1) False)"
    by blast
  from t1 ne d have f: "snd (spawn [example_email] Map.empty) (email_id (last [example_email]))
                          = Some [example_email]"
    "snd (snd (handle_thread smtp_works (respond channel_down) [example_email]
                 (snd (spawn [example_email] Map.empty)))) (email_id (last [example_email])) = None"
    by blast+
  from t2 ne have g: "fst (spawn [example_email]
             (snd (snd (handle_thread smtp_works (respond channel_down) [example_email]
                         (snd (spawn [example_email] Map.empty))))))"
    by blast
  have e': "map snd (filter (\<lambda>r. fst r = ''7'') (run_ops polls_example Map.empty)) = [True, False, False]"
    unfolding e c by (simp add: numeral_3_eq_3)
  from a b d ne e' f [unfolded k] g h tasks_ok_empty show ?thesis by blast
qed

section \<open>Verification: thread reconstruction\<close>

text \<open>
  Where the sort returns, the thread is in ascending order of date, holds the same messages,
  and messages of equal date keep their order of discovery; it returns whenever the dates are
  all aware or all naive. A missing, empty or unparseable Date header gives the naive current
  time.
\<close>

lemma sort_by_date_sorted_stable:
  assumes "sort_by_date thread = Inr ordered"
  shows "sorted (map (\<lambda>e. instant (date e)) ordered)
         \<and> set ordered = set thread \<and> length ordered = length thread
         \<and> filter (\<lambda>e. instant (date e) = t) ordered = filter (\<lambda>e. instant (date e) = t) thread"
proof -
  from assms have o: "ordered = sort_key (\<lambda>e. instant (date e)) thread"
    by (auto simp: sort_by_date_def split: if_splits)
  show ?thesis
    unfolding o by (simp add: sort_key_stable)
qed

lemma sort_by_date_returns:
  assumes "list_all (\<lambda>e. is_aware (date e)) thread \<or> list_all (\<lambda>e. \<not> is_aware (date e)) thread"
  shows "sort_by_date thread = Inr (sort_key (\<lambda>e. instant (date e)) thread)"
  using assms by (simp add: sort_by_date_def)

lemma thread_group_sorted:
  assumes "parse_email srv i = Some seed" "gm_thrid srv (email_id seed) = Some g"
    "search_thrid srv g = mid # mids"
  shows "get_email_thread srv i = sort_by_date (List.map_filter (parse_email srv) (mid # mids))"
  using assms by (simp add: get_email_thread_def)

lemma missing_date_is_now:
  assumes "date_hdr raw = None \<or> date_hdr raw = Some []
           \<or> (\<exists>d. date_hdr raw = Some d \<and> parsedate_to_datetime srv d = None)"
  shows "parse_date srv i raw = Naive (now srv i)"
  using assms by (auto simp: parse_date_def or_empty_def Let_def)

lemma unread_one:
  "get_unread_emails mailbox_one
     = Inr [[\<lparr>email_id = ''1'', to_address = ''support@x.com'', from_address = ''alice@x.com'',
              subject = ''Help'', body = ''How do I reset my password?'',
              date = Aware 1704103200, message_id = ''<m1@x.com>'', references = []\<rparr>]]"
  by (simp add: get_unread_emails_def get_email_thread_def parse_email_def parse_date_def
        or_empty_def mailbox_one_def raw_help_def sort_by_date_def List.map_filter_simps)

lemma unread_expunged: "get_unread_emails mailbox_expunged = Inr [[]]"
  by (simp add: get_unread_emails_def get_email_thread_def parse_email_def mailbox_expunged_def)

lemma parse_undated:
  "parse_email mailbox_undated ''1''
     = Some \<lparr>email_id = ''1'', to_address = ''support@x.com'', from_address = ''alice@x.com'',
             subject = ''Help'', body = ''How do I reset my password?'',
             date = Aware 1704103200, message_id = ''<m1@x.com>'', references = []\<rparr>"
  "parse_email mailbox_undated ''2''
     = Some \<lparr>email_id = ''2'', to_address = ''support@x.com'', from_address = ''alice@x.com'',
             subject = ''Re: Help'', body = ''Any news?'',
             date = Naive 1720000000, message_id = ''<m2@x.com>'', references = ''<m1@x.com>''\<rparr>"
  by (simp_all add: parse_email_def parse_date_def or_empty_def mailbox_undated_def
        raw_help_def raw_undated_def)

lemma thread_undated: "get_email_thread mailbox_undated ''2'' = Inl TypeError"
proof -
  have "gm_thrid mailbox_undated ''2'' = Some ''1787''"
    "search_thrid mailbox_undated ''1787'' = [''1'', ''2'']"
    by (simp_all add: mailbox_undated_def)
  then show ?thesis
    by (simp add: get_email_thread_def parse_undated List.map_filter_simps sort_by_date_def)
qed

text \<open>
  Claim C8 at the input of a thread group with a dated message and a message without Date
  header: the first gets an aware date, the second the naive \<open>datetime.now()\<close>, and the sort
  raises \<open>TypeError\<close> instead of returning the thread in order.
\<close>

theorem undated_message_breaks_sort:
  "parse_email mailbox_undated ''1''
     = Some \<lparr>email_id = ''1'', to_address = ''support@x.com'', from_address = ''alice@x.com'',
             subject = ''Help'', body = ''How do I reset my password?'',
             date = Aware 1704103200, message_id = ''<m1@x.com>'', references = []\<rparr>
   \<and> parse_email mailbox_undated ''2''
     = Some \<lparr>email_id = ''2'', to_address = ''support@x.com'', from_address = ''alice@x.com'',
             subject = ''Re: Help'', body = ''Any news?'',
             date = Naive 1720000000, message_id = ''<m2@x.com>'', references = ''<m1@x.com>''\<rparr>
   \<and> get_email_thread mailbox_undated ''2'' = Inl TypeError
   \<and> get_unread_emails mailbox_undated = Inl TypeError"
  using parse_undated thread_undated
  by (simp add: get_unread_emails_def mailbox_undated_def)

text \<open>
  Claim C9 at the input of an unseen message whose fetch returns no data: reconstruction
  gives the empty thread, \<open>_get_unread_emails\<close> hands it on, and \<open>thread[-1]\<close> raises
  \<open>IndexError\<close> in \<open>process_with_draft_handling\<close>.
\<close>

theorem empty_thread_reaches_handling:
  "get_email_thread mailbox_expunged ''5'' = Inr []
   \<and> get_unread_emails mailbox_expunged = Inr [[]]
   \<and> process_with_draft_handling (poll poll_expunged) Map.empty = (Some IndexError, Map.empty)"
  using unread_expunged
  by (simp add: process_with_draft_handling_def poll_expunged_def get_email_thread_def
        parse_email_def mailbox_expunged_def)

section \<open>Verification: the poll loop\<close>

text \<open>
  What a handling task does while the loop sleeps never decides whether the loop stops: an
  \<open>Exception\<close> inside \<open>handle_thread\<close> does not leave it, and the state of the loop depends on
  the polls alone.
\<close>

lemma handle_thread_catches:
  assumes "fst (handle_thread s r thread tasks) = Some x" "thread \<noteq> []"
  shows "\<not> is_Exception x"
  using assms by (auto simp: handle_thread_def Let_def split: option.splits if_splits)

lemma spawn_all_fault:
  "fst (spawn_all threads tasks) = (if [] \<in> set threads then Some IndexError else None)"
  by (induction threads arbitrary: tasks) auto

lemma process_fault_independent:
  "fst (process_with_draft_handling env tasks) = fst (process_with_draft_handling env tasks')"
  by (simp add: process_with_draft_handling_def spawn_all_fault split: option.splits sum.splits)

lemma main_loop_tasks_irrelevant:
  "fst (main_loop cs st) = fst (main_loop (map (\<lambda>c. c\<lparr>during_sleep := []\<rparr>) cs) st')"
proof (induction cs arbitrary: st st')
  case Nil
  then show ?case by simp
next
  case (Cons c cs)
  have e: "fst (process_with_draft_handling (poll c) (active_tasks st'))
             = fst (process_with_draft_handling (poll c) (active_tasks st))"
    by (rule process_fault_independent)
  show ?case
  proof (cases "fst (process_with_draft_handling (poll c) (active_tasks st))")
    case None
    with e have "fst (process_with_draft_handling (poll c) (active_tasks st')) = None" by simp
    with None show ?thesis by (simp add: Let_def Cons.IH)
  next
    case (Some x)
    with e have "fst (process_with_draft_handling (poll c) (active_tasks st')) = Some x" by simp
    with Some show ?thesis by (simp add: Let_def)
  qed
qed

text \<open>
  Claim C5 at two inputs: a poll in which the IMAP connection fails, and a poll in which the
  thread of an unseen message comes back empty and is indexed. In each the loop stops after
  this poll and the next poll is never made; without a fault both polls are made and the loop
  goes on.
\<close>

theorem poll_fault_stops_loop:
  "fst (main_loop [poll_unreachable, poll_one] orchestrator_start) = Stopped IMAPError
   \<and> polls_made (snd (main_loop [poll_unreachable, poll_one] orchestrator_start)) = 1
   \<and> fst (main_loop [poll_expunged, poll_one] orchestrator_start) = Stopped IndexError
   \<and> polls_made (snd (main_loop [poll_expunged, poll_one] orchestrator_start)) = 1
   \<and> fst (main_loop [poll_one, poll_one] orchestrator_start) = Polling
   \<and> polls_made (snd (main_loop [poll_one, poll_one] orchestrator_start)) = 2"
  using unread_expunged unread_one
  by (simp add: process_with_draft_handling_def poll_unreachable_def poll_one_def
        poll_expunged_def orchestrator_start_def Let_def spawn_def)

section \<open>Verification: fallback when the approval channel fails\<close>

lemma notification_raises:
  assumes "thread \<noteq> []" "is_Exception x1"
  shows "await_approval ts [SendReturns (Inl x1), SendReturns (Inl x)] b thread draft = Inl x"
  using assms by (simp add: await_approval_def notify_and_wait_for_action_def)

lemma withdrawal_raises:
  assumes "thread \<noteq> []"
  shows "await_approval ts [SendReturns (Inr mid), TimeoutFires, WithdrawReturns (Some x)] b thread draft
           = Inl x"
  using assms by (simp add: await_approval_def notify_and_wait_for_action_def register_def)

text \<open>
  Claim C10. When the agent has answered, the bot is configured and the approval call raises
  an \<open>Exception\<close>, \<open>respond\<close> returns the generated draft, which is not the draft marker, and
  \<open>handle_thread\<close> sends it and marks the message read when the SMTP server works. The
  approval call raises when both \<open>send_message\<close> calls raise, and when the wait times out
  and the withdrawal raises; no decision callback is part of either run.
\<close>

theorem approval_failure_sends_draft:
  assumes "thread \<noteq> []" and "agent_run env = Inr body_md" and "\<not> unsure (lower body_md)"
    and "telegram_bot env" and "is_Exception x"
    and "approval env thread (draft_for env (last thread) body_md) = Inl x"
  shows "respond env thread = (Inr (Some (draft_for env (last thread) body_md)), [])
         \<and> email_id (draft_for env (last thread) body_md) \<noteq> ''DRAFT_MARKER''
         \<and> (connect_to_smtp s = None \<and> send s = None \<and> quit s = None \<longrightarrow>
              fst (snd (handle_thread s (respond env) thread tasks))
                = [SmtpConnect, SmtpSend (draft_for env (last thread) body_md), SmtpQuit,
                   MarkAsRead (email_id (last thread))])
         \<and> (is_Exception x1 \<longrightarrow>
              await_approval ts [SendReturns (Inl x1), SendReturns (Inl x)] b thread draft = Inl x)
         \<and> await_approval ts [SendReturns (Inr mid), TimeoutFires, WithdrawReturns (Some x)] b
              thread draft = Inl x"
proof -
  let ?d = "draft_for env (last thread) body_md"
  have r: "respond env thread = (Inr (Some ?d), [])"
    using assms by (simp add: respond_def Let_def)
  have m: "email_id ?d \<noteq> ''DRAFT_MARKER''"
    by (simp add: draft_for_def)
  have h: "connect_to_smtp s = None \<and> send s = None \<and> quit s = None \<longrightarrow>
              fst (snd (handle_thread s (respond env) thread tasks))
                = [SmtpConnect, SmtpSend ?d, SmtpQuit, MarkAsRead (email_id (last thread))]"
    using assms(1) r m by (simp add: handle_thread_def handle_thread_try_def Let_def)
  from r m h notification_raises [OF assms(1), of x1 ts x b draft]
    withdrawal_raises [OF assms(1), of ts mid x b draft]
  show ?thesis by blast
qed

lemma channel_down_approval:
  "approval channel_down [example_email] draft = Inl TelegramError"
  by (simp add: channel_down_def await_approval_def notify_and_wait_for_action_def)

lemma not_unsure_example: "\<not> unsure (lower ''Click Forgot Password.'')"
  by (simp add: unsure_def lower_def)

theorem approval_failure_sends_draft_witness:
  "[example_email] \<noteq> []
   \<and> agent_run channel_down = Inr ''Click Forgot Password.''
   \<and> \<not> unsure (lower ''Click Forgot Password.'')
   \<and> telegram_bot channel_down
   \<and> is_Exception TelegramError
   \<and> approval channel_down [example_email]
        (draft_for channel_down (last [example_email]) ''Click Forgot Password.'') = Inl TelegramError
   \<and> chat_log (run [SendReturns (Inl TelegramError), SendReturns (Inl TelegramError)] notified)
        = [Notify ''7'' True, Notify ''7'' False]
   \<and> fst (respond channel_down [example_email])
        = Inr (Some (draft_for channel_down (last [example_email]) ''Click Forgot Password.''))
   \<and> fst (snd (handle_thread smtp_works (respond channel_down) [example_email] Map.empty))
        = [SmtpConnect,
           SmtpSend (draft_for channel_down (last [example_email]) ''Click Forgot Password.''),
           SmtpQuit, MarkAsRead ''7'']"
proof -
  have a: "[example_email] \<noteq> []" "agent_run channel_down = Inr ''Click Forgot Password.''"
    "telegram_bot channel_down" "is_Exception TelegramError"
    by (simp_all add: channel_down_def)
  have c: "chat_log (run [SendReturns (Inl TelegramError), SendReturns (Inl TelegramError)] notified)
        = [Notify ''7'' True, Notify ''7'' False]"
    by (simp add: notified_def notify_and_wait_for_action_def unique_id_def bot_start_def
          example_email_def)
  have s: "connect_to_smtp smtp_works = None \<and> send smtp_works = None \<and> quit smtp_works = None"
    by (simp add: smtp_works_def)
  have k: "email_id (last [example_email]) = ''7''"
    by (simp add: example_email_def)
  note t = approval_failure_sends_draft [OF a(1,2) not_unsure_example a(3,4) channel_down_approval,
             of smtp_works Map.empty TelegramError "''0''" bot_start example_reply 42]
  from t s have "fst (snd (handle_thread smtp_works (respond channel_down) [example_email] Map.empty))
        = [SmtpConnect,
           SmtpSend (draft_for channel_down (last [example_email]) ''Click Forgot Password.''),
           SmtpQuit, MarkAsRead (email_id (last [example_email]))]"
    by blast
  moreover from t have "fst (respond channel_down [example_email])
        = Inr (Some (draft_for channel_down (last [example_email]) ''Click Forgot Password.''))"
    by simp
  ultimately show ?thesis
    using a c not_unsure_example channel_down_approval k by simp
qed


end
